theory Spec2Isabelle
  imports Complex_Main "HOL-Library.Log_Nat"
begin

section \<open>Data model of the firework canvas\<close>

text \<open>
  The component \<^verbatim>\<open>FireworkCanvas\<close> keeps four mutable pools (particles, stars, rockets,
  constellations) behind React refs and advances them in \<^verbatim>\<open>render\<close>, once per animation
  frame. The embedding below follows the later revision of the component (the one with
  rockets, stars and constellations); the earlier revision has the same particle loop and
  the same \<^verbatim>\<open>createFirework\<close> without the hue override.

  Conventions of the embedding:
  \<^item> a JavaScript \<^verbatim>\<open>number\<close> is a value of the type parameter \<open>'n\<close> where the code only
    adds, subtracts, multiplies and compares, so that the particle loop can be read both
    with exact reals and with the binary64 numbers of the section on binary64 arithmetic,
    and a \<^typ>\<open>real\<close> (exact arithmetic, no rounding, no NaN) everywhere else;
  \<^item> an object of an interface is a record; the fields carry a prefix because several
    interfaces share the names \<^verbatim>\<open>x\<close>, \<^verbatim>\<open>y\<close>, \<^verbatim>\<open>vx\<close>, \<^verbatim>\<open>vy\<close>;
  \<^item> the CSS colour string \<^verbatim>\<open>hsl(h, s%, l%)\<close> is kept as its three components;
  \<^item> the arrays behind the refs are lists, mutated in place by the code and passed
    through explicitly here; every entry of a pool is an object literal made for it (by
    \<^verbatim>\<open>push\<close>, or by \<^verbatim>\<open>pattern.map\<close> for the points of a constellation), so no two
    entries share an object and a list of values says all there is;
  \<^item> \<^verbatim>\<open>Math.random()\<close> is a fixed sequence \<open>rnd\<close> of draws together with the number of
    draws made so far;
  \<^item> reading a property of \<^verbatim>\<open>undefined\<close> throws a \<^verbatim>\<open>TypeError\<close>, which is the value
    \<open>Inl TypeError\<close>;
  \<^item> the drawing calls on the 2D context write to the screen only and are left out, and
    so is \<^verbatim>\<open>Date.now()\<close>, which only feeds the opacity of a star when it is drawn.
\<close>

datatype error = TypeError

datatype color = Hsl real real real

record 'n particle =
  p_x :: 'n
  p_y :: 'n
  p_vx :: 'n
  p_vy :: 'n
  p_alpha :: 'n
  p_color :: color
  p_size :: 'n
  p_decay :: 'n

record 'n config =
  particleCount :: 'n
  gravity :: 'n
  friction :: 'n
  spread :: 'n
  decayRate :: 'n
  hueVariance :: 'n
  baseSize :: 'n
  trailEffect :: bool
  starfield :: bool
  showConstellations :: bool

record star =
  s_x :: real
  s_y :: real
  s_vx :: real
  s_vy :: real
  s_size :: real
  s_maxOpacity :: real
  s_twinklePhase :: real
  s_twinkleSpeed :: real

record point =
  pt_x :: real
  pt_y :: real

record constellation =
  c_stars :: "point list"
  c_vx :: real
  c_vy :: real
  c_alpha :: real

record rocket =
  r_x :: real
  r_y :: real
  r_targetY :: real
  r_vx :: real
  r_vy :: real
  r_hue :: real
  r_trailTimer :: real

text \<open>
  The canvas element: its pixel size and whether \<^verbatim>\<open>getContext('2d')\<close> gives a context.
\<close>

record canvas =
  cv_width :: real
  cv_height :: real
  cv_ctx :: bool

text \<open>
  Everything \<^verbatim>\<open>render\<close>, \<^verbatim>\<open>launchRocket\<close> and \<^verbatim>\<open>createFirework\<close> read and write:
  \<^verbatim>\<open>canvasRef.current\<close> (\<open>None\<close> when the element is not mounted), the four pools, and
  the number of calls of \<^verbatim>\<open>Math.random()\<close> made so far.
\<close>

record world =
  canvasRef :: "canvas option"
  particlesRef :: "real particle list"
  starsRef :: "star list"
  rocketsRef :: "rocket list"
  constellationsRef :: "constellation list"
  draws :: nat

section \<open>The particle loop\<close>

text \<open>\<^verbatim>\<open>xs.splice(i, 1)\<close>: remove the element at index \<open>i\<close>.\<close>

definition splice :: "'a list \<Rightarrow> nat \<Rightarrow> 'a list" where
  "splice xs i = take i xs @ drop (Suc i) xs"

text \<open>
  The physics lines of the loop body, in the order of the source:
  \<^verbatim>\<open>p.vx *= config.friction; p.vy *= config.friction; p.vy += config.gravity;
  p.x += p.vx; p.y += p.vy; p.alpha -= p.decay;\<close>
\<close>

definition integrate ::
  "('n::{times,plus,minus}) config \<Rightarrow> 'n particle \<Rightarrow> 'n particle" where
  "integrate cfg p =
     (let p1 = p\<lparr>p_vx := p_vx p * friction cfg\<rparr>;
          p2 = p1\<lparr>p_vy := p_vy p1 * friction cfg\<rparr>;
          p3 = p2\<lparr>p_vy := p_vy p2 + gravity cfg\<rparr>;
          p4 = p3\<lparr>p_x := p_x p3 + p_vx p3\<rparr>;
          p5 = p4\<lparr>p_y := p_y p4 + p_vy p4\<rparr>
      in p5\<lparr>p_alpha := p_alpha p5 - p_decay p5\<rparr>)"

text \<open>
  \<^verbatim>\<open>for (let i = particles.length - 1; i >= 0; i--)\<close>. The first argument after the
  configuration is \<open>i + 1\<close>, so that the loop ends at \<open>0\<close>. The body reads
  \<^verbatim>\<open>particles[i]\<close> (a \<^verbatim>\<open>TypeError\<close> on the first property access if the index is out of
  range), updates the object in place, and splices it out when \<^verbatim>\<open>p.alpha <= 0\<close>.
\<close>

fun particle_loop ::
  "('n::{times,plus,minus,ord,zero}) config \<Rightarrow> nat \<Rightarrow> 'n particle list
     \<Rightarrow> error + 'n particle list" where
  "particle_loop cfg 0 ps = Inr ps"
| "particle_loop cfg (Suc i) ps =
     (if length ps \<le> i then Inl TypeError
      else
        let p = integrate cfg (ps ! i);
            ps' = ps[i := p]
        in if p_alpha p \<le> 0 then particle_loop cfg i (splice ps' i)
           else particle_loop cfg i ps')"

definition update_particles ::
  "('n::{times,plus,minus,ord,zero}) config \<Rightarrow> 'n particle list \<Rightarrow> error + 'n particle list" where
  "update_particles cfg ps = particle_loop cfg (length ps) ps"

text \<open>What a pass over the pool is meant to be: integrate each particle once, keep the live ones.\<close>

definition live :: "('n::{ord,zero}) particle \<Rightarrow> bool" where
  "live p \<longleftrightarrow> \<not> p_alpha p \<le> 0"

definition integrate_pool ::
  "('n::{times,plus,minus,ord,zero}) config \<Rightarrow> 'n particle list \<Rightarrow> 'n particle list" where
  "integrate_pool cfg ps = filter live (map (integrate cfg) ps)"



section \<open>Binary64 arithmetic\<close>

text \<open>
  The numbers of JavaScript are IEEE 754 binary64 values. A finite one is \<open>m * 2 ^ e\<close> for a
  significand \<open>m\<close> of at most 53 bits and an exponent \<open>e\<close>; \<open>B64 m e\<close> stands for it, and
  \<open>val\<close> is the real number it denotes. Addition, subtraction and multiplication compute
  the exact result and round it to the nearest number with a significand of 53 bits, a tie
  going to the even significand (\<open>round53\<close>). The range of the exponent is not bounded
  here: no overflow to infinity, no subnormal numbers, no NaN.
\<close>

datatype binary64 = B64 (significand: int) (exponent: int)

definition val :: "binary64 \<Rightarrow> real" where
  "val a = of_int (significand a) * 2 powr of_int (exponent a)"

definition representable :: "binary64 \<Rightarrow> bool" where
  "representable a \<longleftrightarrow> \<bar>significand a\<bar> \<le> 2 ^ 53"

text \<open>The integer nearest to \<open>n / 2 ^ s\<close>, the even one of the two in a tie.\<close>

definition nearest_even :: "int \<Rightarrow> nat \<Rightarrow> int" where
  "nearest_even n s =
     (let q = n div 2 ^ s; r = n mod 2 ^ s
      in if 2 * r < 2 ^ s then q
         else if 2 ^ s < 2 * r then q + 1
         else if even q then q else q + 1)"

text \<open>
  \<open>n * 2 ^ e\<close> rounded to 53 bits: the \<open>s\<close> bits of \<open>n\<close> beyond the 53 leading ones are
  rounded away.
\<close>

definition round53 :: "int \<Rightarrow> int \<Rightarrow> binary64" where
  "round53 n e = (let s = nat (bitlen \<bar>n\<bar> - 53) in B64 (nearest_even n s) (e + int s))"

text \<open>The significand of \<open>a\<close> when it is written with the exponent \<open>e\<close>, not above its own.\<close>

definition aligned :: "binary64 \<Rightarrow> int \<Rightarrow> int" where
  "aligned a e = significand a * 2 ^ nat (exponent a - e)"

instantiation binary64 :: "{zero, plus, minus, times, ord}"
begin

definition zero_binary64 :: binary64 where
  "zero_binary64 = B64 0 0"

definition plus_binary64 :: "binary64 \<Rightarrow> binary64 \<Rightarrow> binary64" where
  "plus_binary64 a b =
     (let e = min (exponent a) (exponent b) in round53 (aligned a e + aligned b e) e)"

definition minus_binary64 :: "binary64 \<Rightarrow> binary64 \<Rightarrow> binary64" where
  "minus_binary64 a b =
     (let e = min (exponent a) (exponent b) in round53 (aligned a e - aligned b e) e)"

definition times_binary64 :: "binary64 \<Rightarrow> binary64 \<Rightarrow> binary64" where
  "times_binary64 a b = round53 (significand a * significand b) (exponent a + exponent b)"

definition less_eq_binary64 :: "binary64 \<Rightarrow> binary64 \<Rightarrow> bool" where
  "less_eq_binary64 a b \<longleftrightarrow>
     (let e = min (exponent a) (exponent b) in aligned a e \<le> aligned b e)"

definition less_binary64 :: "binary64 \<Rightarrow> binary64 \<Rightarrow> bool" where
  "less_binary64 a b \<longleftrightarrow>
     (let e = min (exponent a) (exponent b) in aligned a e < aligned b e)"

instance ..

end

section \<open>Random numbers, rockets and bursts\<close>

text \<open>
  \<^verbatim>\<open>const random = (min, max) => Math.random() * (max - min) + min\<close>, where
  \<open>rnd k\<close> is the value of the \<open>k\<close>-th call of \<^verbatim>\<open>Math.random()\<close>.
\<close>

definition random :: "(nat \<Rightarrow> real) \<Rightarrow> nat \<Rightarrow> real \<Rightarrow> real \<Rightarrow> real" where
  "random rnd k lo hi = rnd k * (hi - lo) + lo"


text \<open>
  One particle of a burst, as pushed by the body of the loop of \<^verbatim>\<open>createFirework\<close>; \<open>k\<close>
  is the number of draws made before. The draws are made in the order angle, velocity,
  hue, size, decay.
\<close>

definition burst_particle ::
  "(nat \<Rightarrow> real) \<Rightarrow> real config \<Rightarrow> real \<Rightarrow> real \<Rightarrow> real \<Rightarrow> nat \<Rightarrow> real particle" where
  "burst_particle rnd cfg x y baseColorHue k =
     (let angle = random rnd k 0 (pi * 2);
          velocity = random rnd (k + 1) 0 (spread cfg);
          hue = of_int \<lfloor>random rnd (k + 2) (baseColorHue - 20) (baseColorHue + 20)\<rfloor>
      in \<lparr>p_x = x, p_y = y,
          p_vx = cos angle * velocity,
          p_vy = sin angle * velocity,
          p_alpha = 1,
          p_color = Hsl hue 100 65,
          p_size = random rnd (k + 3) 1 (baseSize cfg),
          p_decay = random rnd (k + 4) (decayRate cfg * 0.5) (decayRate cfg * 1.5)\<rparr>)"


text \<open>\<^verbatim>\<open>for (let i = 0; i < particleCount; i++)\<close>, with \<^verbatim>\<open>particleCount\<close> a number.\<close>

function createFirework_loop ::
  "(nat \<Rightarrow> real) \<Rightarrow> real config \<Rightarrow> real \<Rightarrow> real \<Rightarrow> real \<Rightarrow> nat \<Rightarrow> world \<Rightarrow> world" where
  "createFirework_loop rnd cfg x y baseColorHue i w =
     (if real i < particleCount cfg
      then createFirework_loop rnd cfg x y baseColorHue (Suc i)
             (w\<lparr>particlesRef := particlesRef w @
                    [burst_particle rnd cfg x y baseColorHue (draws w)],
                draws := draws w + 5\<rparr>)
      else w)"
  by pat_completeness auto
termination
  by (relation "measure (\<lambda>(rnd, cfg, x, y, h, i, w). nat \<lceil>particleCount cfg\<rceil> - i)")
     (auto, linarith)

declare createFirework_loop.simps [simp del]

text \<open>
  \<^verbatim>\<open>createFirework(x, y, overrideHue?)\<close>: the base hue is the override when there is one,
  and \<^verbatim>\<open>Math.floor(Math.random() * 360)\<close> otherwise.
\<close>

definition createFirework ::
  "(nat \<Rightarrow> real) \<Rightarrow> real config \<Rightarrow> real \<Rightarrow> real \<Rightarrow> real option \<Rightarrow> world \<Rightarrow> world" where
  "createFirework rnd cfg x y overrideHue w =
     (case overrideHue of
        Some h \<Rightarrow> createFirework_loop rnd cfg x y h 0 w
      | None \<Rightarrow>
          createFirework_loop rnd cfg x y (of_int \<lfloor>rnd (draws w) * 360\<rfloor>) 0
            (w\<lparr>draws := draws w + 1\<rparr>))"

text \<open>
  The particles of a burst of \<open>n\<close> whose first draw has index \<open>k\<close>: each takes five draws.
\<close>

fun burst ::
  "(nat \<Rightarrow> real) \<Rightarrow> real config \<Rightarrow> real \<Rightarrow> real \<Rightarrow> real \<Rightarrow> nat \<Rightarrow> nat \<Rightarrow> real particle list" where
  "burst rnd cfg x y baseColorHue k 0 = []"
| "burst rnd cfg x y baseColorHue k (Suc n) =
     burst_particle rnd cfg x y baseColorHue k # burst rnd cfg x y baseColorHue (k + 5) n"

text \<open>
  The trail emission of the rocket loop: \<^verbatim>\<open>if (Math.random() < 0.5)\<close> one particle is
  pushed at the rocket's position; \<open>k\<close> is the index of the draw that decided it, and
  the particle's own draws follow in the order \<^verbatim>\<open>vx\<close>, \<^verbatim>\<open>vy\<close>, alpha, size, decay.
\<close>

definition trail_particle :: "(nat \<Rightarrow> real) \<Rightarrow> rocket \<Rightarrow> nat \<Rightarrow> real particle" where
  "trail_particle rnd rocket k =
     \<lparr>p_x = r_x rocket, p_y = r_y rocket,
      p_vx = (rnd (k + 1) - 0.5) * 0.5,
      p_vy = random rnd (k + 2) 1 3,
      p_alpha = random rnd (k + 3) 0.5 1,
      p_color = Hsl (r_hue rocket) 80 50,
      p_size = random rnd (k + 4) 0.5 1.5,
      p_decay = random rnd (k + 5) 0.03 0.06\<rparr>"

definition emit_trail :: "(nat \<Rightarrow> real) \<Rightarrow> rocket \<Rightarrow> world \<Rightarrow> world" where
  "emit_trail rnd rocket w =
     (let k = draws w
      in if rnd k < 0.5
         then w\<lparr>particlesRef := particlesRef w @ [trail_particle rnd rocket k],
                draws := k + 6\<rparr>
         else w\<lparr>draws := k + 1\<rparr>)"

text \<open>\<^verbatim>\<open>rocket.x += rocket.vx; rocket.y += rocket.vy\<close>\<close>

definition advance :: "rocket \<Rightarrow> rocket" where
  "advance rocket =
     (let r1 = rocket\<lparr>r_x := r_x rocket + r_vx rocket\<rparr>
      in r1\<lparr>r_y := r_y r1 + r_vy r1\<rparr>)"

text \<open>
  \<^verbatim>\<open>for (let i = rockets.length - 1; i >= 0; i--)\<close>, the counter again \<open>i + 1\<close>: move the
  rocket, perhaps emit a trail particle, and when \<^verbatim>\<open>rocket.y <= rocket.targetY\<close> call
  \<^verbatim>\<open>createFirework(rocket.x, rocket.targetY, rocket.hue)\<close> and splice the rocket out.
\<close>

fun rocket_loop :: "(nat \<Rightarrow> real) \<Rightarrow> real config \<Rightarrow> nat \<Rightarrow> world \<Rightarrow> error + world" where
  "rocket_loop rnd cfg 0 w = Inr w"
| "rocket_loop rnd cfg (Suc i) w =
     (if length (rocketsRef w) \<le> i then Inl TypeError
      else
        let rocket = advance (rocketsRef w ! i);
            w1 = w\<lparr>rocketsRef := (rocketsRef w)[i := rocket]\<rparr>;
            w2 = emit_trail rnd rocket w1
        in if r_y rocket \<le> r_targetY rocket
           then
             let w3 = createFirework rnd cfg (r_x rocket) (r_targetY rocket)
                        (Some (r_hue rocket)) w2
             in rocket_loop rnd cfg i (w3\<lparr>rocketsRef := splice (rocketsRef w3) i\<rparr>)
           else rocket_loop rnd cfg i w2)"

text \<open>
  What one iteration does to the particle pool and to the draws, given the rocket after
  its move: the trail emission, and the burst when the rocket has reached its target.
\<close>

definition rocket_effects :: "(nat \<Rightarrow> real) \<Rightarrow> real config \<Rightarrow> rocket \<Rightarrow> world \<Rightarrow> world" where
  "rocket_effects rnd cfg rocket w =
     (let w2 = emit_trail rnd rocket w
      in if r_y rocket \<le> r_targetY rocket
         then createFirework rnd cfg (r_x rocket) (r_targetY rocket) (Some (r_hue rocket)) w2
         else w2)"

text \<open>
  The particles one iteration pushes when \<open>k\<close> draws were made before it: the trail
  particle if the draw \<open>k\<close> is below one half, then the burst if the rocket has arrived.
\<close>

definition rocket_new ::
  "(nat \<Rightarrow> real) \<Rightarrow> real config \<Rightarrow> rocket \<Rightarrow> nat \<Rightarrow> real particle list" where
  "rocket_new rnd cfg rocket k =
     (if rnd k < 0.5 then [trail_particle rnd rocket k] else []) @
     (if r_y rocket \<le> r_targetY rocket
      then burst rnd cfg (r_x rocket) (r_targetY rocket) (r_hue rocket)
             (if rnd k < 0.5 then k + 6 else k + 1) (nat \<lceil>particleCount cfg\<rceil>)
      else [])"

text \<open>The number of draws the iteration makes.\<close>

definition rocket_draws :: "(nat \<Rightarrow> real) \<Rightarrow> real config \<Rightarrow> rocket \<Rightarrow> nat \<Rightarrow> nat" where
  "rocket_draws rnd cfg rocket k =
     (if rnd k < 0.5 then 6 else 1) +
     (if r_y rocket \<le> r_targetY rocket then 5 * nat \<lceil>particleCount cfg\<rceil> else 0)"

text \<open>
  The particles pushed, and the draws made, for a list of moved rockets taken in the order
  in which the loop visits them, when \<open>k\<close> draws were made before.
\<close>

fun emitted :: "(nat \<Rightarrow> real) \<Rightarrow> real config \<Rightarrow> rocket list \<Rightarrow> nat \<Rightarrow> real particle list" where
  "emitted rnd cfg [] k = []"
| "emitted rnd cfg (rocket # rs) k =
     rocket_new rnd cfg rocket k @ emitted rnd cfg rs (k + rocket_draws rnd cfg rocket k)"

fun emitted_draws :: "(nat \<Rightarrow> real) \<Rightarrow> real config \<Rightarrow> rocket list \<Rightarrow> nat \<Rightarrow> nat" where
  "emitted_draws rnd cfg [] k = 0"
| "emitted_draws rnd cfg (rocket # rs) k =
     rocket_draws rnd cfg rocket k + emitted_draws rnd cfg rs (k + rocket_draws rnd cfg rocket k)"

definition flying :: "rocket \<Rightarrow> bool" where
  "flying rocket \<longleftrightarrow> \<not> r_y rocket \<le> r_targetY rocket"

text \<open>
  \<open>flies n rocket\<close>: the rocket is still short of its target after each of its next \<open>n\<close>
  moves.
\<close>

fun flies :: "nat \<Rightarrow> rocket \<Rightarrow> bool" where
  "flies 0 rocket = True"
| "flies (Suc n) rocket = (flying (advance rocket) \<and> flies n (advance rocket))"

section \<open>Stars and constellations\<close>

text \<open>
  The body of \<^verbatim>\<open>starsRef.current.forEach\<close>: drift, then the four wrap tests in the order
  of the source, each on the value the previous one left.
\<close>

definition update_star :: "real \<Rightarrow> real \<Rightarrow> star \<Rightarrow> star" where
  "update_star logicalWidth logicalHeight s =
     (let s1 = s\<lparr>s_x := s_x s + s_vx s\<rparr>;
          s2 = s1\<lparr>s_y := s_y s1 + s_vy s1\<rparr>;
          s3 = (if s_x s2 < 0 then s2\<lparr>s_x := logicalWidth\<rparr> else s2);
          s4 = (if s_x s3 > logicalWidth then s3\<lparr>s_x := 0\<rparr> else s3);
          s5 = (if s_y s4 < 0 then s4\<lparr>s_y := logicalHeight\<rparr> else s4)
      in if s_y s5 > logicalHeight then s5\<lparr>s_y := 0\<rparr> else s5)"

text \<open>
  The body of \<^verbatim>\<open>constellationsRef.current.forEach\<close>: every point moves by the
  constellation's velocity; then \<^verbatim>\<open>refStar = constellation.stars[0]\<close> is read (a
  \<^verbatim>\<open>TypeError\<close> at \<^verbatim>\<open>refStar.x\<close> when there is no point), and when it is left of
  \<^verbatim>\<open>-width\<close> every point moves right by \<^verbatim>\<open>logicalWidth + width + width\<close>.
\<close>

definition move_point :: "real \<Rightarrow> real \<Rightarrow> point \<Rightarrow> point" where
  "move_point dx dy star = (let s1 = star\<lparr>pt_x := pt_x star + dx\<rparr> in s1\<lparr>pt_y := pt_y s1 + dy\<rparr>)"

definition update_constellation :: "real \<Rightarrow> constellation \<Rightarrow> error + constellation" where
  "update_constellation logicalWidth c =
     (let moved = map (move_point (c_vx c) (c_vy c)) (c_stars c)
      in case moved of
           [] \<Rightarrow> Inl TypeError
         | refStar # _ \<Rightarrow>
             let width = 200
             in if pt_x refStar < - width
                then
                  let diff = logicalWidth + width + width
                  in Inr (c\<lparr>c_stars := map (\<lambda>s. s\<lparr>pt_x := pt_x s + diff\<rparr>) moved\<rparr>)
                else Inr (c\<lparr>c_stars := moved\<rparr>))"

text \<open>
  The wrap of a frame as a horizontal shift: \<^verbatim>\<open>logicalWidth + width + width\<close> when the
  first point, after the drift, is left of \<^verbatim>\<open>-width\<close>, and nothing otherwise.
\<close>

definition wrap_shift :: "real \<Rightarrow> constellation \<Rightarrow> real" where
  "wrap_shift logicalWidth c =
     (if pt_x (hd (c_stars c)) + c_vx c < - 200 then logicalWidth + 200 + 200 else 0)"

fun update_constellations :: "real \<Rightarrow> constellation list \<Rightarrow> error + constellation list" where
  "update_constellations logicalWidth [] = Inr []"
| "update_constellations logicalWidth (c # cs) =
     (case update_constellation logicalWidth c of
        Inl e \<Rightarrow> Inl e
      | Inr c' \<Rightarrow>
          (case update_constellations logicalWidth cs of
             Inl e \<Rightarrow> Inl e
           | Inr cs' \<Rightarrow> Inr (c' # cs')))"

text \<open>Repeated updates of one constellation, one per frame.\<close>

fun update_constellation_n :: "real \<Rightarrow> nat \<Rightarrow> constellation \<Rightarrow> error + constellation" where
  "update_constellation_n logicalWidth 0 c = Inr c"
| "update_constellation_n logicalWidth (Suc n) c =
     (case update_constellation logicalWidth c of
        Inl e \<Rightarrow> Inl e
      | Inr c' \<Rightarrow> update_constellation_n logicalWidth n c')"

text \<open>The squared distance and the distance between two points of a constellation.\<close>

definition dist2 :: "point \<Rightarrow> point \<Rightarrow> real" where
  "dist2 a b = (pt_x a - pt_x b)\<^sup>2 + (pt_y a - pt_y b)\<^sup>2"

definition distance :: "point \<Rightarrow> point \<Rightarrow> real" where
  "distance a b = sqrt (dist2 a b)"

section \<open>One frame\<close>

text \<open>
  The block under \<^verbatim>\<open>if (config.starfield)\<close>: the stars move, and under
  \<^verbatim>\<open>if (config.showConstellations)\<close> the constellations do.
\<close>

definition update_starfield :: "real config \<Rightarrow> real \<Rightarrow> real \<Rightarrow> world \<Rightarrow> error + world" where
  "update_starfield cfg logicalWidth logicalHeight w =
     (let w1 = w\<lparr>starsRef := map (update_star logicalWidth logicalHeight) (starsRef w)\<rparr>
      in if showConstellations cfg
         then
           (case update_constellations logicalWidth (constellationsRef w1) of
              Inl e \<Rightarrow> Inl e
            | Inr cs \<Rightarrow> Inr (w1\<lparr>constellationsRef := cs\<rparr>))
         else Inr w1)"

text \<open>
  \<^verbatim>\<open>render\<close>: return at once without a canvas or a context; otherwise the starfield block
  when \<^verbatim>\<open>config.starfield\<close> is set, the rocket loop and the particle loop.
  \<^verbatim>\<open>window.devicePixelRatio || 1\<close> replaces a ratio of zero by one.
\<close>

definition render :: "(nat \<Rightarrow> real) \<Rightarrow> real \<Rightarrow> real config \<Rightarrow> world \<Rightarrow> error + world" where
  "render rnd devicePixelRatio cfg w =
     (case canvasRef w of
        None \<Rightarrow> Inr w
      | Some canvas \<Rightarrow>
          if \<not> cv_ctx canvas then Inr w
          else
            let dpr = (if devicePixelRatio = 0 then 1 else devicePixelRatio);
                logicalWidth = cv_width canvas / dpr;
                logicalHeight = cv_height canvas / dpr
            in case (if starfield cfg
                     then update_starfield cfg logicalWidth logicalHeight w
                     else Inr w) of
                 Inl e \<Rightarrow> Inl e
               | Inr w1 \<Rightarrow>
                   (case rocket_loop rnd cfg (length (rocketsRef w1)) w1 of
                      Inl e \<Rightarrow> Inl e
                    | Inr w2 \<Rightarrow>
                        (case update_particles cfg (particlesRef w2) of
                           Inl e \<Rightarrow> Inl e
                         | Inr ps \<Rightarrow> Inr (w2\<lparr>particlesRef := ps\<rparr>))))"

text \<open>
  \<^verbatim>\<open>render\<close> of the earlier revision of the component, which has the particle pool only.
\<close>

definition render0 :: "real config \<Rightarrow> world \<Rightarrow> error + world" where
  "render0 cfg w =
     (case canvasRef w of
        None \<Rightarrow> Inr w
      | Some canvas \<Rightarrow>
          if \<not> cv_ctx canvas then Inr w
          else (case update_particles cfg (particlesRef w) of
                  Inl e \<Rightarrow> Inl e
                | Inr ps \<Rightarrow> Inr (w\<lparr>particlesRef := ps\<rparr>)))"

text \<open>
  \<open>n\<close> frames in a row under one configuration, as \<^verbatim>\<open>requestAnimationFrame(render)\<close>
  chains them; an exception ends the chain.
\<close>

fun render_n :: "(nat \<Rightarrow> real) \<Rightarrow> real \<Rightarrow> real config \<Rightarrow> nat \<Rightarrow> world \<Rightarrow> error + world" where
  "render_n rnd devicePixelRatio cfg 0 w = Inr w"
| "render_n rnd devicePixelRatio cfg (Suc n) w =
     (case render rnd devicePixelRatio cfg w of
        Inl e \<Rightarrow> Inl e
      | Inr w' \<Rightarrow> render_n rnd devicePixelRatio cfg n w')"

section \<open>The configuration of the application\<close>

text \<open>
  \<^verbatim>\<open>INITIAL_CONFIG\<close> of \<^verbatim>\<open>App\<close>. It sets neither \<^verbatim>\<open>starfield\<close> nor
  \<^verbatim>\<open>showConstellations\<close>, and \<^verbatim>\<open>undefined\<close> counts as false in a condition.
\<close>

definition INITIAL_CONFIG :: "real config" where
  "INITIAL_CONFIG =
     \<lparr>particleCount = 150, gravity = 0.15, friction = 0.96, spread = 8,
      decayRate = 0.015, hueVariance = 30, baseSize = 2, trailEffect = True,
      starfield = False, showConstellations = False\<rparr>"

text \<open>A mounted canvas of 800 by 600 pixels and a world with nothing in its pools.\<close>

definition canvas_800_600 :: canvas where
  "canvas_800_600 = \<lparr>cv_width = 800, cv_height = 600, cv_ctx = True\<rparr>"

definition empty_world :: world where
  "empty_world =
     \<lparr>canvasRef = Some canvas_800_600, particlesRef = [], starsRef = [], rocketsRef = [],
      constellationsRef = [], draws = 0\<rparr>"

text \<open>A sequence of draws in which \<^verbatim>\<open>Math.random()\<close> returns one quarter every time.\<close>

definition quarter_draws :: "nat \<Rightarrow> real" where
  "quarter_draws k = 1 / 4"

text \<open>
  Two particles at the same place, one about to die and one at full alpha, and a world
  whose pool holds the second between two copies of the first.
\<close>

definition faint_particle :: "real particle" where
  "faint_particle =
     \<lparr>p_x = 400, p_y = 300, p_vx = 1, p_vy = - 2, p_alpha = 0.01,
      p_color = Hsl 10 100 65, p_size = 1.5, p_decay = 0.02\<rparr>"

definition bright_particle :: "real particle" where
  "bright_particle =
     \<lparr>p_x = 400, p_y = 300, p_vx = 1, p_vy = - 2, p_alpha = 1,
      p_color = Hsl 10 100 65, p_size = 1.5, p_decay = 0.02\<rparr>"

definition three_particles :: world where
  "three_particles =
     empty_world\<lparr>particlesRef := [faint_particle, bright_particle, faint_particle]\<rparr>"

text \<open>
  A rocket launched from the bottom of the 800 by 600 canvas towards the altitude 300 at the
  speed of 15 a frame, alone in the world.
\<close>

definition scenario_rocket :: rocket where
  "scenario_rocket =
     \<lparr>r_x = 400, r_y = 600, r_targetY = 300, r_vx = 0.25, r_vy = - 15, r_hue = 200,
      r_trailTimer = 0\<rparr>"

definition scenario_world :: world where
  "scenario_world = empty_world\<lparr>rocketsRef := [scenario_rocket]\<rparr>"

text \<open>
  A star drifting to the left, and a constellation of two points whose first point is about
  to pass the left bound \<open>-200\<close>; a world that holds both.
\<close>

definition drifting_star :: star where
  "drifting_star =
     \<lparr>s_x = 10, s_y = 10, s_vx = - 0.2, s_vy = 0.02, s_size = 1, s_maxOpacity = 1,
      s_twinklePhase = 0, s_twinkleSpeed = 1\<rparr>"

definition wrapping_constellation :: constellation where
  "wrapping_constellation =
     \<lparr>c_stars = [\<lparr>pt_x = - 199.99, pt_y = 30\<rparr>, \<lparr>pt_x = - 185, pt_y = 20\<rparr>],
      c_vx = - 0.015, c_vy = 0.001, c_alpha = 0.2\<rparr>"

definition night_world :: world where
  "night_world =
     empty_world\<lparr>starsRef := [drifting_star], constellationsRef := [wrapping_constellation]\<rparr>"

section \<open>The particle loop as a list function\<close>

text \<open>
  The loop visits the indices from the last to the first. When it is about to visit the
  index \<open>k - 1\<close>, the particles from \<open>k\<close> on have been dealt with, and a removal at
  \<open>k - 1\<close> moves none of the particles below it.
\<close>

lemma particle_loop_prefix:
  "k \<le> length ps \<Longrightarrow>
   particle_loop cfg k ps = Inr (integrate_pool cfg (take k ps) @ drop k ps)"
proof (induction k arbitrary: ps)
  case 0
  then show ?case by (simp add: integrate_pool_def)
next
  case (Suc k)
  then have lt: "k < length ps" by simp
  let ?p = "integrate cfg (ps ! k)"
  have tk: "take (Suc k) ps = take k ps @ [ps ! k]"
    using lt by (simp add: take_Suc_conv_app_nth)
  show ?case
  proof (cases "p_alpha ?p \<le> 0")
    case True
    have len: "k \<le> length (splice (ps[k := ?p]) k)"
      using lt by (simp add: splice_def)
    have t: "take k (splice (ps[k := ?p]) k) = take k ps"
      using lt by (simp add: splice_def)
    have d: "drop k (splice (ps[k := ?p]) k) = drop (Suc k) ps"
      using lt by (simp add: splice_def)
    have "particle_loop cfg (Suc k) ps = particle_loop cfg k (splice (ps[k := ?p]) k)"
      using lt True by (simp add: Let_def)
    also have "\<dots> = Inr (integrate_pool cfg (take k ps) @ drop (Suc k) ps)"
      using Suc.IH [OF len] by (simp add: t d)
    finally show ?thesis
      using True by (simp add: tk integrate_pool_def live_def)
  next
    case False
    have len: "k \<le> length (ps[k := ?p])" using lt by simp
    have d: "drop k (ps[k := ?p]) = ?p # drop (Suc k) ps"
      using lt Cons_nth_drop_Suc [of k "ps[k := ?p]"] by simp
    have "particle_loop cfg (Suc k) ps = particle_loop cfg k (ps[k := ?p])"
      using lt False by (simp add: Let_def)
    also have "\<dots> = Inr (integrate_pool cfg (take k ps) @ ?p # drop (Suc k) ps)"
      using Suc.IH [OF len] by (simp add: d)
    finally show ?thesis
      using False by (simp add: tk integrate_pool_def live_def)
  qed
qed

lemma update_particles_eq: "update_particles cfg ps = Inr (integrate_pool cfg ps)"
  by (simp add: update_particles_def particle_loop_prefix)


lemma integrate_pool_filter:
  "integrate_pool cfg ps = filter (\<lambda>q. \<not> p_alpha q \<le> 0) (map (integrate cfg) ps)"
  unfolding integrate_pool_def by (rule filter_cong) (simp_all add: live_def)

lemma integrate_fields:
  "integrate cfg p =
     p\<lparr>p_vx := p_vx p * friction cfg,
       p_vy := p_vy p * friction cfg + gravity cfg,
       p_x := p_x p + p_vx p * friction cfg,
       p_y := p_y p + (p_vy p * friction cfg + gravity cfg),
       p_alpha := p_alpha p - p_decay p\<rparr>"
  by (simp add: integrate_def Let_def)








section \<open>Draws and bursts\<close>






lemma createFirework_loop_eq:
  "createFirework_loop rnd cfg x y h i w =
   w\<lparr>particlesRef := particlesRef w @ burst rnd cfg x y h (draws w) (nat \<lceil>particleCount cfg\<rceil> - i),
     draws := draws w + 5 * (nat \<lceil>particleCount cfg\<rceil> - i)\<rparr>"
proof (induction rnd cfg x y h i w rule: createFirework_loop.induct)
  case (1 rnd cfg x y h i w)
  show ?case
  proof (cases "real i < particleCount cfg")
    case True
    then have "i < nat \<lceil>particleCount cfg\<rceil>" by linarith
    then have n: "nat \<lceil>particleCount cfg\<rceil> - i = Suc (nat \<lceil>particleCount cfg\<rceil> - Suc i)"
      by simp
    show ?thesis
      using True "1.IH" [OF True]
      by (simp add: createFirework_loop.simps [of rnd cfg x y h i] n)
  next
    case False
    then have "nat \<lceil>particleCount cfg\<rceil> - i = 0" by simp
    with False show ?thesis
      by (simp add: createFirework_loop.simps [of rnd cfg x y h i])
  qed
qed

lemma createFirework_eq:
  "createFirework rnd cfg x y (Some h) w =
   w\<lparr>particlesRef := particlesRef w @ burst rnd cfg x y h (draws w) (nat \<lceil>particleCount cfg\<rceil>),
     draws := draws w + 5 * nat \<lceil>particleCount cfg\<rceil>\<rparr>"
  by (simp add: createFirework_def createFirework_loop_eq)


lemma length_burst: "length (burst rnd cfg x y h k n) = n"
  by (induction n arbitrary: k) simp_all


lemma burst_origin:
  "p \<in> set (burst rnd cfg x y h k n) \<Longrightarrow> p_x p = x \<and> p_y p = y"
  by (induction n arbitrary: k) (auto simp: burst_particle_def Let_def)



section \<open>The rocket loop as a list function\<close>

text \<open>
  The rocket loop has the shape of the particle loop. Its effect on the particle pool and
  on the count of draws is first written as a fold of \<open>rocket_effects\<close> over the moved
  rockets, then spelled out with \<open>emitted\<close> and \<open>emitted_draws\<close>.
\<close>

lemma createFirework_rockets:
  "createFirework rnd cfg x y ov (w\<lparr>rocketsRef := rs\<rparr>) =
   (createFirework rnd cfg x y ov w)\<lparr>rocketsRef := rs\<rparr>"
  by (cases ov) (simp_all add: createFirework_def createFirework_loop_eq)

lemma emit_trail_rockets:
  "emit_trail rnd r (w\<lparr>rocketsRef := rs\<rparr>) = (emit_trail rnd r w)\<lparr>rocketsRef := rs\<rparr>"
  by (simp add: emit_trail_def Let_def)

lemma rocket_effects_rockets:
  "rocket_effects rnd cfg r (w\<lparr>rocketsRef := rs\<rparr>) = (rocket_effects rnd cfg r w)\<lparr>rocketsRef := rs\<rparr>"
  by (simp add: rocket_effects_def Let_def emit_trail_rockets createFirework_rockets)

lemma foldr_effects_rockets:
  "foldr (rocket_effects rnd cfg) xs (w\<lparr>rocketsRef := rs\<rparr>) =
   (foldr (rocket_effects rnd cfg) xs w)\<lparr>rocketsRef := rs\<rparr>"
  by (induction xs) (simp_all add: rocket_effects_rockets)

lemma rocket_loop_prefix:
  "k \<le> length (rocketsRef w) \<Longrightarrow>
   rocket_loop rnd cfg k w =
     Inr ((foldr (rocket_effects rnd cfg) (map advance (take k (rocketsRef w))) w)
            \<lparr>rocketsRef := filter flying (map advance (take k (rocketsRef w))) @ drop k (rocketsRef w)\<rparr>)"
proof (induction k arbitrary: w)
  case 0
  then show ?case by simp
next
  case (Suc k)
  let ?rs = "rocketsRef w"
  let ?r = "advance (?rs ! k)"
  let ?F = "foldr (rocket_effects rnd cfg)"
  from Suc.prems have lt: "k < length ?rs" by simp
  have tk: "take (Suc k) ?rs = take k ?rs @ [?rs ! k]"
    using lt by (simp add: take_Suc_conv_app_nth)
  have fold: "?F (map advance (take (Suc k) ?rs)) w = ?F (map advance (take k ?rs)) (rocket_effects rnd cfg ?r w)"
    by (simp add: tk)
  show ?case
  proof (cases "r_y ?r \<le> r_targetY ?r")
    case True
    let ?rs' = "splice (?rs[k := ?r]) k"
    let ?w' = "(rocket_effects rnd cfg ?r w)\<lparr>rocketsRef := ?rs'\<rparr>"
    have step: "rocket_loop rnd cfg (Suc k) w = rocket_loop rnd cfg k ?w'"
      using lt True
      by (simp add: Let_def rocket_effects_def emit_trail_rockets createFirework_rockets)
    have len: "k \<le> length (rocketsRef ?w')" using lt by (simp add: splice_def)
    have t: "take k ?rs' = take k ?rs" using lt by (simp add: splice_def)
    have d: "drop k ?rs' = drop (Suc k) ?rs" using lt by (simp add: splice_def)
    show ?thesis
      unfolding step using Suc.IH [OF len] True
      by (simp add: t d fold tk foldr_effects_rockets flying_def)
  next
    case False
    let ?rs' = "?rs[k := ?r]"
    let ?w' = "(rocket_effects rnd cfg ?r w)\<lparr>rocketsRef := ?rs'\<rparr>"
    have step: "rocket_loop rnd cfg (Suc k) w = rocket_loop rnd cfg k ?w'"
      using lt False
      by (simp add: Let_def rocket_effects_def emit_trail_rockets)
    have len: "k \<le> length (rocketsRef ?w')" using lt by simp
    have d: "drop k ?rs' = ?r # drop (Suc k) ?rs"
      using lt Cons_nth_drop_Suc [of k "?rs[k := ?r]"] by simp
    show ?thesis
      unfolding step using Suc.IH [OF len] False
      by (simp add: d fold tk foldr_effects_rockets flying_def)
  qed
qed

lemma rocket_loop_eq:
  "rocket_loop rnd cfg (length (rocketsRef w)) w =
     Inr ((foldr (rocket_effects rnd cfg) (map advance (rocketsRef w)) w)
            \<lparr>rocketsRef := filter flying (map advance (rocketsRef w))\<rparr>)"
  using rocket_loop_prefix [of "length (rocketsRef w)" w rnd cfg] by simp

lemma emitted_append:
  "emitted rnd cfg (as @ bs) k =
     emitted rnd cfg as k @ emitted rnd cfg bs (k + emitted_draws rnd cfg as k)"
  by (induction as arbitrary: k) (simp_all add: add.assoc)

lemma emitted_draws_append:
  "emitted_draws rnd cfg (as @ bs) k =
     emitted_draws rnd cfg as k + emitted_draws rnd cfg bs (k + emitted_draws rnd cfg as k)"
  by (induction as arbitrary: k) (simp_all add: add.assoc)

lemma emitted_split:
  "emitted rnd cfg (rev (map advance (before @ r # after))) k =
     emitted rnd cfg (rev (map advance after)) k @
     rocket_new rnd cfg (advance r) (k + emitted_draws rnd cfg (rev (map advance after)) k) @
     emitted rnd cfg (rev (map advance before))
       (k + emitted_draws rnd cfg (rev (map advance after)) k +
        rocket_draws rnd cfg (advance r) (k + emitted_draws rnd cfg (rev (map advance after)) k))"
  by (simp add: emitted_append)

lemma rocket_effects_eq:
  "rocket_effects rnd cfg r v =
     v\<lparr>particlesRef := particlesRef v @ rocket_new rnd cfg r (draws v),
       draws := draws v + rocket_draws rnd cfg r (draws v)\<rparr>"
  by (simp add: rocket_effects_def rocket_new_def rocket_draws_def emit_trail_def
      createFirework_eq Let_def)

lemma foldr_effects_eq:
  "foldr (rocket_effects rnd cfg) xs w =
     w\<lparr>particlesRef := particlesRef w @ emitted rnd cfg (rev xs) (draws w),
       draws := draws w + emitted_draws rnd cfg (rev xs) (draws w)\<rparr>"
proof (induction xs)
  case Nil
  then show ?case by simp
next
  case (Cons x xs)
  let ?v = "w\<lparr>particlesRef := particlesRef w @ emitted rnd cfg (rev xs) (draws w),
       draws := draws w + emitted_draws rnd cfg (rev xs) (draws w)\<rparr>"
  have "foldr (rocket_effects rnd cfg) (x # xs) w = rocket_effects rnd cfg x ?v"
    by (simp only: foldr.simps comp_apply Cons.IH)
  also have "\<dots> = ?v\<lparr>particlesRef := particlesRef ?v @ rocket_new rnd cfg x (draws ?v),
       draws := draws ?v + rocket_draws rnd cfg x (draws ?v)\<rparr>"
    by (rule rocket_effects_eq)
  finally show ?case
    by (simp add: emitted_append emitted_draws_append add.assoc)
qed

lemma rocket_loop_explicit:
  "rocket_loop rnd cfg (length (rocketsRef w)) w =
     Inr (w\<lparr>rocketsRef := filter flying (map advance (rocketsRef w)),
            particlesRef := particlesRef w @
              emitted rnd cfg (rev (map advance (rocketsRef w))) (draws w),
            draws := draws w + emitted_draws rnd cfg (rev (map advance (rocketsRef w))) (draws w)\<rparr>)"
  by (simp add: rocket_loop_eq foldr_effects_eq)

lemma advance_sel:
  "r_x (advance r) = r_x r + r_vx r"
  "r_y (advance r) = r_y r + r_vy r"
  "r_vx (advance r) = r_vx r"
  "r_vy (advance r) = r_vy r"
  "r_targetY (advance r) = r_targetY r"
  "r_hue (advance r) = r_hue r"
  "r_trailTimer (advance r) = r_trailTimer r"
  by (simp_all add: advance_def Let_def)

lemma advance_n_sel:
  "r_vx ((advance ^^ n) r) = r_vx r"
  "r_vy ((advance ^^ n) r) = r_vy r"
  "r_targetY ((advance ^^ n) r) = r_targetY r"
  "r_hue ((advance ^^ n) r) = r_hue r"
  "r_trailTimer ((advance ^^ n) r) = r_trailTimer r"
  by (induction n) (simp_all add: advance_sel)

lemma advance_n_pos:
  "r_x ((advance ^^ n) r) = r_x r + real n * r_vx r"
  "r_y ((advance ^^ n) r) = r_y r + real n * r_vy r"
  by (induction n) (simp_all add: advance_sel advance_n_sel algebra_simps)

lemma advance_n_eq:
  "(advance ^^ n) r = r\<lparr>r_x := r_x r + real n * r_vx r, r_y := r_y r + real n * r_vy r\<rparr>"
  by (rule rocket.equality) (simp_all add: advance_n_sel advance_n_pos)

lemma flies_iff:
  "flies n r \<longleftrightarrow> (\<forall>k. 0 < k \<and> k \<le> n \<longrightarrow> flying ((advance ^^ k) r))"
proof (induction n arbitrary: r)
  case 0
  then show ?case by simp
next
  case (Suc n)
  have "(\<forall>k. 0 < k \<and> k \<le> Suc n \<longrightarrow> flying ((advance ^^ k) r)) \<longleftrightarrow>
        flying (advance r) \<and> (\<forall>k. 0 < k \<and> k \<le> n \<longrightarrow> flying ((advance ^^ k) (advance r)))"
    (is "?L \<longleftrightarrow> ?R")
  proof
    assume L: ?L
    have "flying ((advance ^^ Suc 0) r)" using L by blast
    moreover have "flying ((advance ^^ k) (advance r))" if "0 < k \<and> k \<le> n" for k
      using L [rule_format, of "Suc k"] that by (simp add: funpow_swap1)
    ultimately show ?R by simp
  next
    assume R: ?R
    show ?L
    proof (intro allI impI)
      fix k assume k: "0 < k \<and> k \<le> Suc n"
      then obtain j where j: "k = Suc j" by (cases k) auto
      show "flying ((advance ^^ k) r)"
      proof (cases "j = 0")
        case True
        with R j show ?thesis by simp
      next
        case False
        with R j k have "flying ((advance ^^ j) (advance r))" by simp
        with j show ?thesis by (simp add: funpow_swap1)
      qed
    qed
  qed
  with Suc.IH [of "advance r"] show ?case by simp
qed

lemma filter_flies_step:
  "filter (flies n) (filter flying (map advance rs)) = map advance (filter (flies (Suc n)) rs)"
  by (induction rs) simp_all

lemma scenario_flying:
  assumes "r_y r = 600" "r_targetY r = 300" "r_vy r = - 15"
  shows "flying ((advance ^^ k) r) \<longleftrightarrow> k < 20"
proof -
  have "flying ((advance ^^ k) r) \<longleftrightarrow> \<not> 600 + real k * (- 15) \<le> (300::real)"
    by (simp add: flying_def advance_n_pos advance_n_sel assms)
  also have "\<dots> \<longleftrightarrow> real k < 20" by auto
  also have "\<dots> \<longleftrightarrow> k < 20" by simp
  finally show ?thesis .
qed

lemma scenario_flies:
  assumes "r_y r = 600" "r_targetY r = 300" "r_vy r = - 15"
  shows "flies n r \<longleftrightarrow> n < 20"
proof -
  have "flies n r \<longleftrightarrow> (\<forall>k. 0 < k \<and> k \<le> n \<longrightarrow> k < 20)"
    by (simp only: flies_iff scenario_flying [OF assms])
  also have "\<dots> \<longleftrightarrow> n < 20"
  proof
    assume a: "\<forall>k. 0 < k \<and> k \<le> n \<longrightarrow> k < 20"
    show "n < 20"
    proof (cases "n = 0")
      case True then show ?thesis by simp
    next
      case False with a show ?thesis by simp
    qed
  next
    assume "n < 20" then show "\<forall>k. 0 < k \<and> k \<le> n \<longrightarrow> k < 20" by simp
  qed
  finally show ?thesis .
qed

section \<open>Stars and constellations\<close>

lemma update_star_sel:
  "s_x (update_star W H s) =
     (if s_x s + s_vx s < 0 then W else if W < s_x s + s_vx s then 0 else s_x s + s_vx s)"
  "s_y (update_star W H s) =
     (if s_y s + s_vy s < 0 then H else if H < s_y s + s_vy s then 0 else s_y s + s_vy s)"
  "s_vx (update_star W H s) = s_vx s"
  "s_vy (update_star W H s) = s_vy s"
  by (simp_all add: update_star_def Let_def)

lemma move_point_sel:
  "pt_x (move_point dx dy a) = pt_x a + dx"
  "pt_y (move_point dx dy a) = pt_y a + dy"
  by (simp_all add: move_point_def Let_def)

lemma distance_move_point: "distance (move_point dx dy a) (move_point dx dy b) = distance a b"
  by (simp add: distance_def dist2_def move_point_sel)

lemma distance_shift:
  "distance (a\<lparr>pt_x := pt_x a + diff\<rparr>) (b\<lparr>pt_x := pt_x b + diff\<rparr>) = distance a b"
  by (simp add: distance_def dist2_def)

lemma shift_move_point:
  "(move_point dx dy a)\<lparr>pt_x := pt_x (move_point dx dy a) + diff\<rparr> = move_point (dx + diff) dy a"
  by (simp add: move_point_def Let_def)

lemma update_constellation_eq:
  assumes "update_constellation W c = Inr c'"
  shows "c' = c\<lparr>c_stars := map (move_point (c_vx c + wrap_shift W c) (c_vy c)) (c_stars c)\<rparr>"
    and "c_stars c \<noteq> []"
proof -
  from assms obtain p ps where ps: "c_stars c = p # ps"
    by (cases "c_stars c") (auto simp: update_constellation_def Let_def)
  then show "c_stars c \<noteq> []" by simp
  show "c' = c\<lparr>c_stars := map (move_point (c_vx c + wrap_shift W c) (c_vy c)) (c_stars c)\<rparr>"
  proof (cases "pt_x p + c_vx c < - 200")
    case True
    with assms ps show ?thesis
      by (auto simp: update_constellation_def wrap_shift_def Let_def move_point_sel
          shift_move_point add.assoc)
  next
    case False
    with assms ps show ?thesis
      by (auto simp: update_constellation_def wrap_shift_def Let_def move_point_sel)
  qed
qed

lemma update_constellation_nonempty:
  assumes "c_stars con \<noteq> []"
  shows "\<exists>con'. update_constellation W con = Inr con' \<and> c_stars con' \<noteq> []"
  using assms
  by (cases "c_stars con") (auto simp: update_constellation_def Let_def)

lemma update_constellation_distances:
  assumes "update_constellation W c = Inr c'"
  shows "length (c_stars c') = length (c_stars c)"
    and "i < length (c_stars c) \<Longrightarrow> j < length (c_stars c) \<Longrightarrow>
         distance (c_stars c' ! i) (c_stars c' ! j) = distance (c_stars c ! i) (c_stars c ! j)"
  by (simp_all add: update_constellation_eq(1) [OF assms] distance_move_point)

lemma update_constellation_n_distances:
  assumes "update_constellation_n W n c = Inr c'"
  shows "length (c_stars c') = length (c_stars c) \<and>
         (\<forall>i < length (c_stars c). \<forall>j < length (c_stars c).
            distance (c_stars c' ! i) (c_stars c' ! j) = distance (c_stars c ! i) (c_stars c ! j))"
  using assms
proof (induction n arbitrary: c)
  case 0
  then show ?case by simp
next
  case (Suc n)
  from Suc.prems obtain d where d: "update_constellation W c = Inr d"
    "update_constellation_n W n d = Inr c'"
    by (cases "update_constellation W c") simp_all
  from Suc.IH [OF d(2)] update_constellation_distances [OF d(1)]
  show ?case by simp
qed

lemma update_constellation_n_total:
  assumes "c_stars c \<noteq> []"
  shows "\<exists>c'. update_constellation_n W n c = Inr c'"
  using assms
proof (induction n arbitrary: c)
  case 0
  then show ?case by simp
next
  case (Suc n)
  from update_constellation_nonempty [OF Suc.prems, of W]
  obtain d where d: "update_constellation W c = Inr d" "c_stars d \<noteq> []" by auto
  from Suc.IH [OF d(2)] d(1) show ?case by simp
qed

lemma update_constellations_eq:
  assumes "update_constellations W cs = Inr cs'"
  shows "cs' = map (\<lambda>c. c\<lparr>c_stars :=
           map (move_point (c_vx c + wrap_shift W c) (c_vy c)) (c_stars c)\<rparr>) cs"
  using assms
proof (induction cs arbitrary: cs')
  case Nil
  then show ?case by simp
next
  case (Cons a cs)
  from Cons.prems obtain a' where a': "update_constellation W a = Inr a'"
    by (cases "update_constellation W a") simp_all
  from Cons.prems a' obtain ds where ds: "update_constellations W cs = Inr ds"
    by (cases "update_constellations W cs") simp_all
  from Cons.prems a' ds have "cs' = a' # ds" by simp
  with Cons.IH [OF ds] update_constellation_eq(1) [OF a'] show ?case by simp
qed

lemma update_constellations_nonempty:
  assumes "\<forall>con \<in> set cs. c_stars con \<noteq> []"
  shows "\<exists>cs'. update_constellations W cs = Inr cs' \<and> (\<forall>con \<in> set cs'. c_stars con \<noteq> [])"
  using assms
proof (induction cs)
  case Nil
  then show ?case by simp
next
  case (Cons a cs)
  from Cons.prems update_constellation_nonempty [of a W]
  obtain a' where a': "update_constellation W a = Inr a'" "c_stars a' \<noteq> []" by auto
  from Cons obtain cs' where cs': "update_constellations W cs = Inr cs'"
    "\<forall>con \<in> set cs'. c_stars con \<noteq> []" by auto
  from a' cs' show ?case by simp
qed

lemma update_starfield_frame:
  assumes "update_starfield cfg W H w = Inr w1"
  shows "canvasRef w1 = canvasRef w" "particlesRef w1 = particlesRef w"
    "rocketsRef w1 = rocketsRef w" "draws w1 = draws w"
    "starsRef w1 = map (update_star W H) (starsRef w)"
  using assms by (auto simp: update_starfield_def Let_def split: if_splits sum.splits)

lemma update_starfield_total:
  assumes "\<forall>con \<in> set (constellationsRef w). c_stars con \<noteq> []"
  shows "\<exists>w1. update_starfield cfg W H w = Inr w1 \<and>
           (\<forall>con \<in> set (constellationsRef w1). c_stars con \<noteq> [])"
proof (cases "showConstellations cfg")
  case True
  from update_constellations_nonempty [OF assms, of W]
  obtain cs' where "update_constellations W (constellationsRef w) = Inr cs'"
    "\<forall>con \<in> set cs'. c_stars con \<noteq> []" by auto
  with True show ?thesis by (simp add: update_starfield_def Let_def)
next
  case False
  with assms show ?thesis by (simp add: update_starfield_def Let_def)
qed

section \<open>The frame\<close>

text \<open>
  A frame with the canvas mounted: \<open>w1\<close> is the world after the starfield block, which is
  the world itself when \<^verbatim>\<open>config.starfield\<close> is not set.
\<close>

lemma render_eq:
  assumes "canvasRef w = Some c" "cv_ctx c"
    and "w1 = w \<and> \<not> starfield cfg \<or>
         starfield cfg \<and>
         update_starfield cfg (cv_width c / (if dpr = 0 then 1 else dpr))
           (cv_height c / (if dpr = 0 then 1 else dpr)) w = Inr w1"
  shows "render rnd dpr cfg w =
         Inr ((foldr (rocket_effects rnd cfg) (map advance (rocketsRef w1)) w1)
               \<lparr>rocketsRef := filter flying (map advance (rocketsRef w1)),
                particlesRef := integrate_pool cfg
                  (particlesRef (foldr (rocket_effects rnd cfg) (map advance (rocketsRef w1)) w1))\<rparr>)"
  using assms
  by (auto simp: render_def Let_def rocket_loop_eq update_particles_eq)

lemma render_InrD:
  assumes "render rnd dpr cfg w = Inr w'" "canvasRef w = Some c" "cv_ctx c"
  shows "\<exists>w1. (w1 = w \<and> \<not> starfield cfg \<or>
         starfield cfg \<and>
         update_starfield cfg (cv_width c / (if dpr = 0 then 1 else dpr))
           (cv_height c / (if dpr = 0 then 1 else dpr)) w = Inr w1) \<and>
     w' = (foldr (rocket_effects rnd cfg) (map advance (rocketsRef w1)) w1)
               \<lparr>rocketsRef := filter flying (map advance (rocketsRef w1)),
                particlesRef := integrate_pool cfg
                  (particlesRef (foldr (rocket_effects rnd cfg) (map advance (rocketsRef w1)) w1))\<rparr>"
proof (cases "starfield cfg")
  case False
  with assms render_eq [of w c w cfg dpr rnd] show ?thesis by auto
next
  case True
  let ?W = "cv_width c / (if dpr = 0 then 1 else dpr)"
  let ?H = "cv_height c / (if dpr = 0 then 1 else dpr)"
  from assms True obtain w1 where w1: "update_starfield cfg ?W ?H w = Inr w1"
    by (cases "update_starfield cfg ?W ?H w") (auto simp: render_def Let_def)
  with assms True render_eq [of w c w1 cfg dpr rnd] show ?thesis by auto
qed

lemma render_explicit:
  assumes "canvasRef w = Some c" "cv_ctx c"
    and "w1 = w \<and> \<not> starfield cfg \<or>
         starfield cfg \<and>
         update_starfield cfg (cv_width c / (if dpr = 0 then 1 else dpr))
           (cv_height c / (if dpr = 0 then 1 else dpr)) w = Inr w1"
  shows "render rnd dpr cfg w =
         Inr (w1\<lparr>rocketsRef := filter flying (map advance (rocketsRef w)),
                particlesRef := integrate_pool cfg
                  (particlesRef w @ emitted rnd cfg (rev (map advance (rocketsRef w))) (draws w)),
                draws := draws w + emitted_draws rnd cfg (rev (map advance (rocketsRef w))) (draws w)\<rparr>)"
proof -
  from assms(3) have f: "rocketsRef w1 = rocketsRef w" "particlesRef w1 = particlesRef w"
    "draws w1 = draws w"
    by (auto simp: update_starfield_frame)
  show ?thesis
    unfolding render_eq [OF assms] by (simp add: foldr_effects_eq f)
qed

lemma render_particles_explicit:
  assumes "render rnd dpr cfg w = Inr w'" "canvasRef w = Some c" "cv_ctx c"
  shows "particlesRef w' = integrate_pool cfg
           (particlesRef w @ emitted rnd cfg (rev (map advance (rocketsRef w))) (draws w))"
proof -
  from render_InrD [OF assms] obtain w1 where
    w1: "w1 = w \<and> \<not> starfield cfg \<or>
         starfield cfg \<and>
         update_starfield cfg (cv_width c / (if dpr = 0 then 1 else dpr))
           (cv_height c / (if dpr = 0 then 1 else dpr)) w = Inr w1"
    by blast
  from render_explicit [OF assms(2,3) w1, of rnd] assms(1) show ?thesis by auto
qed

lemma render0_eq:
  assumes "canvasRef w = Some c" "cv_ctx c"
  shows "render0 cfg w = Inr (w\<lparr>particlesRef := integrate_pool cfg (particlesRef w)\<rparr>)"
  using assms by (simp add: render0_def update_particles_eq)

lemma render_total:
  assumes "\<forall>con \<in> set (constellationsRef w). c_stars con \<noteq> []"
  shows "\<exists>w'. render rnd dpr cfg w = Inr w' \<and> canvasRef w' = canvasRef w \<and>
           (\<forall>con \<in> set (constellationsRef w'). c_stars con \<noteq> [])"
proof (cases "canvasRef w")
  case None
  with assms show ?thesis by (simp add: render_def)
next
  case (Some c)
  show ?thesis
  proof (cases "cv_ctx c")
    case False
    with Some assms show ?thesis by (simp add: render_def)
  next
    case True
    let ?W = "cv_width c / (if dpr = 0 then 1 else dpr)"
    let ?H = "cv_height c / (if dpr = 0 then 1 else dpr)"
    show ?thesis
    proof (cases "starfield cfg")
      case False
      with render_explicit [OF Some True, of w cfg dpr rnd] Some assms
      show ?thesis by simp
    next
      case sf: True
      from update_starfield_total [OF assms, of cfg ?W ?H]
      obtain w1 where w1: "update_starfield cfg ?W ?H w = Inr w1"
        "\<forall>con \<in> set (constellationsRef w1). c_stars con \<noteq> []" by auto
      from render_explicit [OF Some True, of w1 cfg dpr rnd] sf w1 Some
        update_starfield_frame(1) [OF w1(1)]
      show ?thesis by simp
    qed
  qed
qed

lemma render_rockets:
  assumes "render rnd dpr cfg w = Inr w'" "canvasRef w = Some c" "cv_ctx c"
  shows "rocketsRef w' = filter flying (map advance (rocketsRef w))"
proof -
  from render_InrD [OF assms] obtain w1 where
    w1: "w1 = w \<and> \<not> starfield cfg \<or>
         starfield cfg \<and>
         update_starfield cfg (cv_width c / (if dpr = 0 then 1 else dpr))
           (cv_height c / (if dpr = 0 then 1 else dpr)) w = Inr w1"
    by blast
  from render_explicit [OF assms(2,3) w1, of rnd] assms(1) show ?thesis by auto
qed

lemma render_canvas:
  assumes "render rnd dpr cfg w = Inr w'"
  shows "canvasRef w' = canvasRef w"
proof (cases "canvasRef w")
  case None
  with assms show ?thesis by (simp add: render_def)
next
  case (Some c)
  show ?thesis
  proof (cases "cv_ctx c")
    case False
    with Some assms show ?thesis by (simp add: render_def)
  next
    case True
    from render_InrD [OF assms Some True] obtain w1 where
      w1: "w1 = w \<and> \<not> starfield cfg \<or>
         starfield cfg \<and>
         update_starfield cfg (cv_width c / (if dpr = 0 then 1 else dpr))
           (cv_height c / (if dpr = 0 then 1 else dpr)) w = Inr w1"
      by blast
    then have "canvasRef w1 = canvasRef w" by (auto simp: update_starfield_frame)
    with render_explicit [OF Some True w1, of rnd] assms show ?thesis by auto
  qed
qed

lemma render_pools:
  assumes "canvasRef w = Some c" "cv_ctx c" "render rnd dpr cfg w = Inr w'"
  shows "starsRef w' =
           (if starfield cfg
            then map (update_star (cv_width c / (if dpr = 0 then 1 else dpr))
                        (cv_height c / (if dpr = 0 then 1 else dpr))) (starsRef w)
            else starsRef w)"
    and "constellationsRef w' =
           (if starfield cfg \<and> showConstellations cfg
            then map (\<lambda>c'. c'\<lparr>c_stars :=
                   map (move_point (c_vx c' + wrap_shift (cv_width c / (if dpr = 0 then 1 else dpr)) c')
                          (c_vy c')) (c_stars c')\<rparr>) (constellationsRef w)
            else constellationsRef w)"
proof -
  let ?W = "cv_width c / (if dpr = 0 then 1 else dpr)"
  let ?H = "cv_height c / (if dpr = 0 then 1 else dpr)"
  from render_InrD [OF assms(3,1,2)] obtain w1 where
    w1: "w1 = w \<and> \<not> starfield cfg \<or> starfield cfg \<and> update_starfield cfg ?W ?H w = Inr w1"
    by blast
  from render_explicit [OF assms(1,2) w1, of rnd] assms(3)
  have w': "starsRef w' = starsRef w1" "constellationsRef w' = constellationsRef w1" by auto
  show "starsRef w' = (if starfield cfg then map (update_star ?W ?H) (starsRef w) else starsRef w)"
    using w1 w'(1) by (auto simp: update_starfield_frame)
  show "constellationsRef w' =
           (if starfield cfg \<and> showConstellations cfg
            then map (\<lambda>c'. c'\<lparr>c_stars :=
                   map (move_point (c_vx c' + wrap_shift ?W c') (c_vy c')) (c_stars c')\<rparr>)
                   (constellationsRef w)
            else constellationsRef w)"
  proof (cases "starfield cfg")
    case False
    with w1 w'(2) show ?thesis by auto
  next
    case True
    with w1 have u: "update_starfield cfg ?W ?H w = Inr w1" by auto
    show ?thesis
    proof (cases "showConstellations cfg")
      case False
      with u True w'(2) show ?thesis by (auto simp: update_starfield_def Let_def)
    next
      case sc: True
      from u sc obtain cs where cs: "update_constellations ?W (constellationsRef w) = Inr cs"
        "constellationsRef w1 = cs"
        by (cases "update_constellations ?W (constellationsRef w)")
           (auto simp: update_starfield_def Let_def)
      from update_constellations_eq [OF cs(1)] cs(2) w'(2) True sc show ?thesis by simp
    qed
  qed
qed

lemma render_n_rockets:
  assumes "render_n rnd dpr cfg n w = Inr w'" "canvasRef w = Some c" "cv_ctx c"
  shows "rocketsRef w' = map (advance ^^ n) (filter (flies n) (rocketsRef w)) \<and>
         canvasRef w' = Some c"
  using assms
proof (induction n arbitrary: w)
  case 0
  then show ?case by simp
next
  case (Suc n)
  from Suc.prems(1) obtain v where v: "render rnd dpr cfg w = Inr v"
    "render_n rnd dpr cfg n v = Inr w'"
    by (cases "render rnd dpr cfg w") simp_all
  have cv: "canvasRef v = Some c" using render_canvas [OF v(1)] Suc.prems(2) by simp
  have rv: "rocketsRef v = filter flying (map advance (rocketsRef w))"
    by (rule render_rockets [OF v(1) Suc.prems(2,3)])
  from Suc.IH [OF v(2) cv Suc.prems(3)]
  have "rocketsRef w' = map (advance ^^ n) (filter (flies n) (rocketsRef v))"
    and c': "canvasRef w' = Some c" by simp_all
  then have "rocketsRef w' = map (advance ^^ n) (map advance (filter (flies (Suc n)) (rocketsRef w)))"
    by (simp only: rv filter_flies_step)
  then have "rocketsRef w' = map (advance ^^ Suc n) (filter (flies (Suc n)) (rocketsRef w))"
    by (simp add: funpow_Suc_right del: funpow.simps flies.simps)
  with c' show ?case by blast
qed

lemma render_n_total_inv:
  assumes "\<forall>con \<in> set (constellationsRef w). c_stars con \<noteq> []"
  shows "\<exists>w'. render_n rnd dpr cfg n w = Inr w' \<and>
           (\<forall>con \<in> set (constellationsRef w'). c_stars con \<noteq> [])"
  using assms
proof (induction n arbitrary: w)
  case 0
  then show ?case by simp
next
  case (Suc n)
  from render_total [OF Suc.prems, of rnd dpr cfg]
  obtain v where v: "render rnd dpr cfg w = Inr v"
    "\<forall>con \<in> set (constellationsRef v). c_stars con \<noteq> []" by auto
  from Suc.IH [OF v(2)] v(1) show ?case by simp
qed


section \<open>The particle pass\<close>

text \<open>
  C5. In a single physics pass over the particle pool, every particle present at the start
  of the pass is integrated exactly once: the pool after the pass consists of the particles
  of the pool before it, in their order, each with the integration step applied once,
  without those whose alpha has reached zero. So a removal makes the loop neither skip a
  particle nor visit one twice, whatever the pool holds and whichever particles die, and the
  loop never reads outside the pool.
\<close>

theorem update_particles_integrates_each_once:
  "update_particles cfg ps = Inr (filter (\<lambda>q. \<not> p_alpha q \<le> 0) (map (integrate cfg) ps))"
proof -
  have "filter live (map (integrate cfg) ps) = filter (\<lambda>q. \<not> p_alpha q \<le> 0) (map (integrate cfg) ps)"
    by (rule filter_cong) (simp_all add: live_def)
  then show ?thesis
    by (simp add: update_particles_eq integrate_pool_def)
qed

theorem update_particles_integrates_each_once_witness:
  "update_particles INITIAL_CONFIG [faint_particle, bright_particle, faint_particle] =
     Inr [integrate INITIAL_CONFIG bright_particle]"
  using update_particles_integrates_each_once
          [of INITIAL_CONFIG "[faint_particle, bright_particle, faint_particle]"]
  by (simp add: INITIAL_CONFIG_def faint_particle_def bright_particle_def integrate_def Let_def)

text \<open>
  C1. One frame step updates every particle of the pool by the sequence: \<open>vx\<close> is multiplied
  by the friction, \<open>vy\<close> is multiplied by the friction, the gravity is added to \<open>vy\<close>, \<open>x\<close>
  grows by the new \<open>vx\<close> and \<open>y\<close> by the new \<open>vy\<close>, and the decay is subtracted from alpha;
  and the particle is removed from the pool in that same step when its alpha has become
  zero or less. This holds for the frame of the earlier revision, which has the particle
  pool only, and for the frame of the later one, where the particles that the rocket loop
  has pushed at the end of the pool earlier in the frame (\<open>emitted\<close>) are treated alike.
  The canvas is mounted; without it a frame does nothing.
\<close>

theorem particle_frame_step:
  fixes cfg :: "real config"
  assumes "canvasRef w = Some c" and "cv_ctx c"
  shows "integrate cfg p =
           p\<lparr>p_vx := p_vx p * friction cfg,
             p_vy := p_vy p * friction cfg + gravity cfg,
             p_x := p_x p + p_vx p * friction cfg,
             p_y := p_y p + (p_vy p * friction cfg + gravity cfg),
             p_alpha := p_alpha p - p_decay p\<rparr> \<and>
         render0 cfg w =
           Inr (w\<lparr>particlesRef :=
                  filter (\<lambda>q. \<not> p_alpha q \<le> 0) (map (integrate cfg) (particlesRef w))\<rparr>) \<and>
         (\<forall>w'. render rnd dpr cfg w = Inr w' \<longrightarrow>
            particlesRef w' =
              filter (\<lambda>q. \<not> p_alpha q \<le> 0)
                (map (integrate cfg)
                   (particlesRef w @
                    emitted rnd cfg (rev (map advance (rocketsRef w))) (draws w))))"
proof -
  have "particlesRef w' =
          filter (\<lambda>q. \<not> p_alpha q \<le> 0)
            (map (integrate cfg)
               (particlesRef w @ emitted rnd cfg (rev (map advance (rocketsRef w))) (draws w)))"
    if "render rnd dpr cfg w = Inr w'" for w'
    using render_particles_explicit [OF that assms] by (simp only: integrate_pool_filter)
  with assms show ?thesis
    by (simp add: integrate_fields render0_eq integrate_pool_filter)
qed

theorem particle_frame_step_witness:
  "canvasRef three_particles = Some canvas_800_600 \<and> cv_ctx canvas_800_600 \<and>
   integrate INITIAL_CONFIG bright_particle =
     \<lparr>p_x = 400.96, p_y = 298.23, p_vx = 0.96, p_vy = - 1.77, p_alpha = 0.98,
      p_color = Hsl 10 100 65, p_size = 1.5, p_decay = 0.02\<rparr> \<and>
   render0 INITIAL_CONFIG three_particles =
     Inr (three_particles\<lparr>particlesRef := [integrate INITIAL_CONFIG bright_particle]\<rparr>) \<and>
   render quarter_draws 1 INITIAL_CONFIG three_particles =
     Inr (three_particles\<lparr>particlesRef := [integrate INITIAL_CONFIG bright_particle]\<rparr>)"
proof -
  have c: "canvasRef three_particles = Some canvas_800_600" "cv_ctx canvas_800_600"
    by (simp_all add: three_particles_def empty_world_def canvas_800_600_def)
  have r: "render quarter_draws 1 INITIAL_CONFIG three_particles =
     Inr (three_particles\<lparr>particlesRef := [integrate INITIAL_CONFIG bright_particle]\<rparr>)"
    by (simp add: render_def three_particles_def empty_world_def canvas_800_600_def
        INITIAL_CONFIG_def update_particles_def faint_particle_def bright_particle_def
        integrate_def splice_def Let_def)
  from particle_frame_step [OF c, of INITIAL_CONFIG bright_particle quarter_draws 1] r c
  show ?thesis
    by (simp add: three_particles_def empty_world_def INITIAL_CONFIG_def faint_particle_def
        bright_particle_def integrate_def Let_def)
qed



section \<open>Bursts\<close>




section \<open>Rockets\<close>



text \<open>
  C3. The rocket loop removes a rocket in the very iteration in which, after its move,
  \<^verbatim>\<open>rocket.y <= rocket.targetY\<close> holds, and in that iteration it calls \<^verbatim>\<open>createFirework\<close>
  once: the pool keeps the moved rockets that are still short of their target, and the
  particles pushed are, rocket by rocket from the last to the first, the trail particle (if
  the draw says so) followed by one burst of \<^verbatim>\<open>particleCount\<close> particles if and only if the
  rocket has arrived.

  In particular, take a world whose only rocket has \<open>y = 600\<close>, \<open>targetY = 300\<close> and
  \<open>vy = -15\<close> (canvas mounted, no constellation without points, so that no frame throws).
  After \<open>n < 20\<close> frames the rocket is still in the pool, at \<open>y = 600 - 15 n\<close>; the frames 1 to
  19 push no burst; the frame 20 pushes the burst, at the altitude 300, and after it the
  rocket pool is empty.
\<close>

theorem rocket_detonation:
  "rocket_loop rnd cfg (length (rocketsRef w)) w =
     Inr (w\<lparr>rocketsRef := filter (\<lambda>r. \<not> r_y r \<le> r_targetY r) (map advance (rocketsRef w)),
            particlesRef := particlesRef w @
              emitted rnd cfg (rev (map advance (rocketsRef w))) (draws w),
            draws := draws w + emitted_draws rnd cfg (rev (map advance (rocketsRef w))) (draws w)\<rparr>) \<and>
   (\<forall>r k. rocket_new rnd cfg r k =
      (if rnd k < 0.5 then [trail_particle rnd r k] else []) @
      (if r_y r \<le> r_targetY r
       then burst rnd cfg (r_x r) (r_targetY r) (r_hue r)
              (if rnd k < 0.5 then k + 6 else k + 1) (nat \<lceil>particleCount cfg\<rceil>)
       else [])) \<and>
   (\<forall>x y h v. createFirework rnd cfg x y (Some h) v =
      v\<lparr>particlesRef := particlesRef v @ burst rnd cfg x y h (draws v) (nat \<lceil>particleCount cfg\<rceil>),
        draws := draws v + 5 * nat \<lceil>particleCount cfg\<rceil>\<rparr>) \<and>
   (canvasRef w = Some c \<and> cv_ctx c \<and> (\<forall>con \<in> set (constellationsRef w). c_stars con \<noteq> []) \<and>
    rocketsRef w = [r] \<and> r_y r = 600 \<and> r_targetY r = 300 \<and> r_vy r = - 15 \<longrightarrow>
    (\<forall>n. \<exists>w\<^sub>n. render_n rnd dpr cfg n w = Inr w\<^sub>n \<and>
       rocketsRef w\<^sub>n =
         (if n < 20 then [r\<lparr>r_x := r_x r + real n * r_vx r, r_y := 600 - 15 * real n\<rparr>] else []) \<and>
       (n < 20 \<longrightarrow>
          (\<exists>w'. render rnd dpr cfg w\<^sub>n = Inr w' \<and>
             particlesRef w' = integrate_pool cfg
               (particlesRef w\<^sub>n @
                (if rnd (draws w\<^sub>n) < 0.5
                 then [trail_particle rnd ((advance ^^ Suc n) r) (draws w\<^sub>n)] else []) @
                (if n = 19
                 then burst rnd cfg (r_x r + 20 * r_vx r) 300 (r_hue r)
                        (if rnd (draws w\<^sub>n) < 0.5 then draws w\<^sub>n + 6 else draws w\<^sub>n + 1)
                        (nat \<lceil>particleCount cfg\<rceil>)
                 else []))))))"
proof -
  have loop: "rocket_loop rnd cfg (length (rocketsRef w)) w =
     Inr (w\<lparr>rocketsRef := filter (\<lambda>r. \<not> r_y r \<le> r_targetY r) (map advance (rocketsRef w)),
            particlesRef := particlesRef w @
              emitted rnd cfg (rev (map advance (rocketsRef w))) (draws w),
            draws := draws w + emitted_draws rnd cfg (rev (map advance (rocketsRef w))) (draws w)\<rparr>)"
  proof -
    have "filter flying (map advance (rocketsRef w)) =
          filter (\<lambda>r. \<not> r_y r \<le> r_targetY r) (map advance (rocketsRef w))"
      by (rule filter_cong) (simp_all add: flying_def)
    then show ?thesis by (simp add: rocket_loop_explicit)
  qed
  have new: "\<forall>r k. rocket_new rnd cfg r k =
      (if rnd k < 0.5 then [trail_particle rnd r k] else []) @
      (if r_y r \<le> r_targetY r
       then burst rnd cfg (r_x r) (r_targetY r) (r_hue r)
              (if rnd k < 0.5 then k + 6 else k + 1) (nat \<lceil>particleCount cfg\<rceil>)
       else [])"
    by (simp add: rocket_new_def)
  have cf: "\<forall>x y h v. createFirework rnd cfg x y (Some h) v =
      v\<lparr>particlesRef := particlesRef v @ burst rnd cfg x y h (draws v) (nat \<lceil>particleCount cfg\<rceil>),
        draws := draws v + 5 * nat \<lceil>particleCount cfg\<rceil>\<rparr>"
    by (simp add: createFirework_eq)
  have scen: "\<exists>w\<^sub>n. render_n rnd dpr cfg n w = Inr w\<^sub>n \<and>
       rocketsRef w\<^sub>n =
         (if n < 20 then [r\<lparr>r_x := r_x r + real n * r_vx r, r_y := 600 - 15 * real n\<rparr>] else []) \<and>
       (n < 20 \<longrightarrow>
          (\<exists>w'. render rnd dpr cfg w\<^sub>n = Inr w' \<and>
             particlesRef w' = integrate_pool cfg
               (particlesRef w\<^sub>n @
                (if rnd (draws w\<^sub>n) < 0.5
                 then [trail_particle rnd ((advance ^^ Suc n) r) (draws w\<^sub>n)] else []) @
                (if n = 19
                 then burst rnd cfg (r_x r + 20 * r_vx r) 300 (r_hue r)
                        (if rnd (draws w\<^sub>n) < 0.5 then draws w\<^sub>n + 6 else draws w\<^sub>n + 1)
                        (nat \<lceil>particleCount cfg\<rceil>)
                 else []))))"
    if cv: "canvasRef w = Some c" "cv_ctx c"
      and cons: "\<forall>con \<in> set (constellationsRef w). c_stars con \<noteq> []"
      and rw: "rocketsRef w = [r]" and r: "r_y r = 600" "r_targetY r = 300" "r_vy r = - 15"
    for n
  proof -
    from render_n_total_inv [OF cons, of rnd dpr cfg n]
    obtain wn where wn: "render_n rnd dpr cfg n w = Inr wn"
      "\<forall>con \<in> set (constellationsRef wn). c_stars con \<noteq> []" by auto
    from render_n_rockets [OF wn(1) cv]
    have rn: "rocketsRef wn = map (advance ^^ n) (filter (flies n) [r])"
      and cn: "canvasRef wn = Some c" by (simp_all add: rw)
    have rockets: "rocketsRef wn =
         (if n < 20 then [r\<lparr>r_x := r_x r + real n * r_vx r, r_y := 600 - 15 * real n\<rparr>] else [])"
      using rn by (simp add: scenario_flies [OF r] advance_n_eq r)
    have frame: "\<exists>w'. render rnd dpr cfg wn = Inr w' \<and>
             particlesRef w' = integrate_pool cfg
               (particlesRef wn @
                (if rnd (draws wn) < 0.5
                 then [trail_particle rnd ((advance ^^ Suc n) r) (draws wn)] else []) @
                (if n = 19
                 then burst rnd cfg (r_x r + 20 * r_vx r) 300 (r_hue r)
                        (if rnd (draws wn) < 0.5 then draws wn + 6 else draws wn + 1)
                        (nat \<lceil>particleCount cfg\<rceil>)
                 else []))"
      if n: "n < 20"
    proof -
      from render_total [OF wn(2), of rnd dpr cfg]
      obtain w' where w': "render rnd dpr cfg wn = Inr w'" by auto
      have rs: "rocketsRef wn = [(advance ^^ n) r]"
        using rn n by (simp add: scenario_flies [OF r])
      let ?r' = "(advance ^^ Suc n) r"
      have y: "r_y ?r' \<le> r_targetY ?r' \<longleftrightarrow> n = 19"
        using scenario_flying [OF r, of "Suc n"] n by (auto simp: flying_def simp del: funpow.simps)
      have x: "r_x ?r' = r_x r + real (Suc n) * r_vx r" "r_targetY ?r' = 300" "r_hue ?r' = r_hue r"
        by (simp_all add: advance_n_pos advance_n_sel r del: funpow.simps)
      have "particlesRef w' = integrate_pool cfg
           (particlesRef wn @ emitted rnd cfg (rev (map advance (rocketsRef wn))) (draws wn))"
        by (rule render_particles_explicit [OF w' cn cv(2)])
      also have "emitted rnd cfg (rev (map advance (rocketsRef wn))) (draws wn) =
                 rocket_new rnd cfg ?r' (draws wn)"
        by (simp add: rs)
      also have "rocket_new rnd cfg ?r' (draws wn) =
           (if rnd (draws wn) < 0.5 then [trail_particle rnd ?r' (draws wn)] else []) @
           (if n = 19
            then burst rnd cfg (r_x r + 20 * r_vx r) 300 (r_hue r)
                   (if rnd (draws wn) < 0.5 then draws wn + 6 else draws wn + 1)
                   (nat \<lceil>particleCount cfg\<rceil>)
            else [])"
      proof (cases "n = 19")
        case True
        with y have "r_y ?r' \<le> r_targetY ?r'" by blast
        moreover have "r_x ?r' = r_x r + 20 * r_vx r" using x(1) True by simp
        ultimately show ?thesis
          using True x(2,3) by (simp add: rocket_new_def del: funpow.simps)
      next
        case False
        with y have "\<not> r_y ?r' \<le> r_targetY ?r'" by blast
        then show ?thesis
          using False by (simp add: rocket_new_def del: funpow.simps)
      qed
      finally show ?thesis using w' by blast
    qed
    from wn(1) rockets frame show ?thesis by blast
  qed
  from loop new cf scen show ?thesis by blast
qed


theorem rocket_detonation_witness:
  "canvasRef scenario_world = Some canvas_800_600 \<and> cv_ctx canvas_800_600 \<and>
   constellationsRef scenario_world = [] \<and>
   rocketsRef scenario_world = [scenario_rocket] \<and>
   r_y scenario_rocket = 600 \<and> r_targetY scenario_rocket = 300 \<and> r_vy scenario_rocket = - 15 \<and>
   (\<exists>w19. render_n (\<lambda>_. 3 / 4) 1 INITIAL_CONFIG 19 scenario_world = Inr w19 \<and>
      rocketsRef w19 = [scenario_rocket\<lparr>r_x := 404.75, r_y := 315\<rparr>]) \<and>
   (\<exists>w20. render_n (\<lambda>_. 3 / 4) 1 INITIAL_CONFIG 20 scenario_world = Inr w20 \<and>
      rocketsRef w20 = [])"
proof -
  have h: "canvasRef scenario_world = Some canvas_800_600 \<and> cv_ctx canvas_800_600 \<and>
   (\<forall>con \<in> set (constellationsRef scenario_world). c_stars con \<noteq> []) \<and>
   rocketsRef scenario_world = [scenario_rocket] \<and>
   r_y scenario_rocket = 600 \<and> r_targetY scenario_rocket = 300 \<and> r_vy scenario_rocket = - 15"
    by (simp add: scenario_world_def scenario_rocket_def empty_world_def canvas_800_600_def)
  note s = rocket_detonation [of "\<lambda>_. 3 / 4" INITIAL_CONFIG scenario_world canvas_800_600
      scenario_rocket 1, THEN conjunct2, THEN conjunct2, THEN conjunct2, rule_format, OF h]
  from s [of 19] have a: "\<exists>w19. render_n (\<lambda>_. 3 / 4) 1 INITIAL_CONFIG 19 scenario_world = Inr w19 \<and>
      rocketsRef w19 = [scenario_rocket\<lparr>r_x := 404.75, r_y := 315\<rparr>]"
    by (auto simp: scenario_rocket_def)
  from s [of 20] have b: "\<exists>w20. render_n (\<lambda>_. 3 / 4) 1 INITIAL_CONFIG 20 scenario_world = Inr w20 \<and>
      rocketsRef w20 = []"
    by auto
  have e: "constellationsRef scenario_world = []"
    by (simp add: scenario_world_def empty_world_def)
  from h a b e show ?thesis by blast
qed

text \<open>
  C10. When a rocket of the pool arrives (after its move \<open>y + vy \<le> targetY\<close>, with equality
  or with an overshoot), the rocket loop pushes, between the particles of the rockets visited
  before and after it, one burst \<open>B\<close> of \<^verbatim>\<open>particleCount\<close> particles: the one
  \<^verbatim>\<open>createFirework(rocket.x, rocket.targetY, rocket.hue)\<close> pushes for the moved rocket. Every
  particle of \<open>B\<close> is created at the height \<open>targetY\<close>, whatever the height the rocket has
  reached, and at the rocket's new \<open>x\<close>.
\<close>

theorem burst_at_target_altitude:
  assumes "rocketsRef w = before @ r # after" and "r_y r + r_vy r \<le> r_targetY r"
  shows "\<exists>w' pre B post k.
           rocket_loop rnd cfg (length (rocketsRef w)) w = Inr w' \<and>
           particlesRef w' = particlesRef w @ pre @ B @ post \<and>
           B = burst rnd cfg (r_x r + r_vx r) (r_targetY r) (r_hue r) k (nat \<lceil>particleCount cfg\<rceil>) \<and>
           (\<forall>v. draws v = k \<longrightarrow>
              createFirework rnd cfg (r_x (advance r)) (r_targetY (advance r))
                (Some (r_hue (advance r))) v =
              v\<lparr>particlesRef := particlesRef v @ B,
                draws := k + 5 * nat \<lceil>particleCount cfg\<rceil>\<rparr>) \<and>
           length B = nat \<lceil>particleCount cfg\<rceil> \<and>
           (\<forall>p \<in> set B. p_y p = r_targetY r \<and> p_x p = r_x r + r_vx r)"
proof -
  let ?k0 = "draws w + emitted_draws rnd cfg (rev (map advance after)) (draws w)"
  define k where "k = (if rnd ?k0 < 0.5 then ?k0 + 6 else ?k0 + 1)"
  let ?N = "nat \<lceil>particleCount cfg\<rceil>"
  let ?B = "burst rnd cfg (r_x r + r_vx r) (r_targetY r) (r_hue r) k ?N"
  let ?pre = "emitted rnd cfg (rev (map advance after)) (draws w) @
              (if rnd ?k0 < 0.5 then [trail_particle rnd (advance r) ?k0] else [])"
  let ?post = "emitted rnd cfg (rev (map advance before))
                 (?k0 + rocket_draws rnd cfg (advance r) ?k0)"
  let ?w' = "w\<lparr>rocketsRef := filter flying (map advance (rocketsRef w)),
            particlesRef := particlesRef w @
              emitted rnd cfg (rev (map advance (rocketsRef w))) (draws w),
            draws := draws w + emitted_draws rnd cfg (rev (map advance (rocketsRef w))) (draws w)\<rparr>"
  have arrived: "r_y (advance r) \<le> r_targetY (advance r)"
    using assms(2) by (simp add: advance_sel)
  have new: "rocket_new rnd cfg (advance r) ?k0 =
             (if rnd ?k0 < 0.5 then [trail_particle rnd (advance r) ?k0] else []) @ ?B"
    using arrived by (simp add: rocket_new_def advance_sel k_def)
  have loop: "rocket_loop rnd cfg (length (rocketsRef w)) w = Inr ?w'"
    by (rule rocket_loop_explicit)
  have "emitted rnd cfg (rev (map advance (rocketsRef w))) (draws w) =
        emitted rnd cfg (rev (map advance after)) (draws w) @
        rocket_new rnd cfg (advance r) ?k0 @ ?post"
    unfolding assms(1) by (rule emitted_split)
  then have parts: "particlesRef ?w' = particlesRef w @ ?pre @ ?B @ ?post"
    by (simp add: new)
  have cf: "createFirework rnd cfg (r_x (advance r)) (r_targetY (advance r))
                (Some (r_hue (advance r))) v =
              v\<lparr>particlesRef := particlesRef v @ ?B, draws := k + 5 * ?N\<rparr>"
    if "draws v = k" for v
    unfolding createFirework_eq that by (simp add: advance_sel)
  have len: "length ?B = ?N" by (rule length_burst)
  have org: "\<forall>p \<in> set ?B. p_y p = r_targetY r \<and> p_x p = r_x r + r_vx r"
    using burst_origin by blast
  from loop parts cf len org show ?thesis by blast
qed


theorem burst_at_target_altitude_witness:
  "rocketsRef (empty_world\<lparr>rocketsRef := [scenario_rocket\<lparr>r_y := 310\<rparr>]\<rparr>) =
     [] @ scenario_rocket\<lparr>r_y := 310\<rparr> # [] \<and>
   r_y (scenario_rocket\<lparr>r_y := 310\<rparr>) + r_vy (scenario_rocket\<lparr>r_y := 310\<rparr>)
     \<le> r_targetY (scenario_rocket\<lparr>r_y := 310\<rparr>) \<and>
   r_y (advance (scenario_rocket\<lparr>r_y := 310\<rparr>)) = 295 \<and>
   rocket_loop (\<lambda>_. 1 / 2) (INITIAL_CONFIG\<lparr>particleCount := 1\<rparr>) 1
     (empty_world\<lparr>rocketsRef := [scenario_rocket\<lparr>r_y := 310\<rparr>]\<rparr>) =
   Inr (empty_world
         \<lparr>particlesRef :=
            [\<lparr>p_x = 400.25, p_y = 300, p_vx = - 4, p_vy = 0, p_alpha = 1,
              p_color = Hsl 200 100 65, p_size = 3 / 2, p_decay = 3 / 200\<rparr>],
          draws := 6\<rparr>)"
proof -
  let ?r = "scenario_rocket\<lparr>r_y := 310\<rparr>"
  let ?w = "empty_world\<lparr>rocketsRef := [?r]\<rparr>"
  have h: "rocketsRef ?w = [] @ ?r # []" "r_y ?r + r_vy ?r \<le> r_targetY ?r"
    by (simp_all add: scenario_rocket_def)
  from burst_at_target_altitude [OF h, of "\<lambda>_. 1 / 2" "INITIAL_CONFIG\<lparr>particleCount := 1\<rparr>"] h
  show ?thesis
    by (simp add: scenario_rocket_def empty_world_def INITIAL_CONFIG_def advance_def
        emit_trail_def createFirework_def createFirework_loop.simps burst_particle_def
        random_def splice_def Let_def)
qed

section \<open>Stars and constellations in a frame\<close>

text \<open>
  C9. The motion of a constellation is rigid. The drift of a frame, which moves every point
  by \<open>(vx, vy)\<close>, keeps the distance of any two points, and so does the wrap, which moves
  every point to the right by the same amount. One update of a constellation moves all its
  points by one vector: the drift, plus \<^verbatim>\<open>logicalWidth + 2 * 200\<close> to the right when the first
  point has moved left of \<open>-200\<close>. Any number of updates of a constellation with at least
  one point succeeds, and leaves the number of points and all pairwise distances as they
  were. Numbers are exact reals here.
\<close>

theorem constellation_rigid:
  "distance (move_point dx dy a) (move_point dx dy b) = distance a b \<and>
   distance (a\<lparr>pt_x := pt_x a + diff\<rparr>) (b\<lparr>pt_x := pt_x b + diff\<rparr>) = distance a b \<and>
   (\<forall>c'. update_constellation W c = Inr c' \<longrightarrow>
      c' = c\<lparr>c_stars := map (move_point (c_vx c + wrap_shift W c) (c_vy c)) (c_stars c)\<rparr>) \<and>
   wrap_shift W c = (if pt_x (hd (c_stars c)) + c_vx c < - 200 then W + 2 * 200 else 0) \<and>
   (c_stars c \<noteq> [] \<longrightarrow> (\<exists>c'. update_constellation_n W n c = Inr c')) \<and>
   (\<forall>c'. update_constellation_n W n c = Inr c' \<longrightarrow>
      length (c_stars c') = length (c_stars c) \<and>
      (\<forall>i < length (c_stars c). \<forall>j < length (c_stars c).
         distance (c_stars c' ! i) (c_stars c' ! j) = distance (c_stars c ! i) (c_stars c ! j)))"
  using distance_move_point distance_shift update_constellation_eq(1) [of W c]
    update_constellation_n_total [of c W n] update_constellation_n_distances [of W n c]
  by (simp add: wrap_shift_def)


theorem constellation_rigid_witness:
  "c_stars wrapping_constellation \<noteq> [] \<and>
   update_constellation_n 800 1 wrapping_constellation =
     Inr (wrapping_constellation
           \<lparr>c_stars := [\<lparr>pt_x = 999.995, pt_y = 30.001\<rparr>, \<lparr>pt_x = 1014.985, pt_y = 20.001\<rparr>]\<rparr>) \<and>
   distance \<lparr>pt_x = 999.995, pt_y = 30.001\<rparr> \<lparr>pt_x = 1014.985, pt_y = 20.001\<rparr> =
   distance \<lparr>pt_x = - 199.99, pt_y = 30\<rparr> \<lparr>pt_x = - 185, pt_y = 20\<rparr>"
proof -
  have e: "update_constellation_n 800 1 wrapping_constellation =
     Inr (wrapping_constellation
           \<lparr>c_stars := [\<lparr>pt_x = 999.995, pt_y = 30.001\<rparr>, \<lparr>pt_x = 1014.985, pt_y = 20.001\<rparr>]\<rparr>)"
    by (simp add: wrapping_constellation_def update_constellation_def move_point_def Let_def)
  note t = constellation_rigid [of 0 0 "\<lparr>pt_x = 0, pt_y = 0\<rparr>" "\<lparr>pt_x = 0, pt_y = 0\<rparr>" 0
      800 wrapping_constellation 1, THEN conjunct2, THEN conjunct2, THEN conjunct2,
      THEN conjunct2, THEN conjunct2, rule_format, OF e, THEN conjunct2, rule_format, of 0 1]
  from t e show ?thesis by (simp add: wrapping_constellation_def)
qed

text \<open>
  C8, as the code has it. With the canvas mounted, a frame advances the rocket pool and the
  particle pool by one step under every configuration: the rockets move and the arrived ones
  leave, and the particles, with those the rockets have just pushed, are integrated once.
  The stars move by their \<open>(vx, vy)\<close> and wrap to the opposite edge, each axis on its own, in
  the frames in which \<^verbatim>\<open>config.starfield\<close> is set, and are left as they are in the others;
  the constellations are translated by their \<open>(vx, vy)\<close> (and wrapped) in the frames in which
  both \<^verbatim>\<open>config.starfield\<close> and \<^verbatim>\<open>config.showConstellations\<close> are set, and are left as they
  are in the others. The frame returns whenever no constellation is without points.
\<close>

theorem render_advances_pools:
  assumes "canvasRef w = Some c" and "cv_ctx c"
  shows "((\<forall>con \<in> set (constellationsRef w). c_stars con \<noteq> []) \<longrightarrow>
            (\<exists>w'. render rnd dpr cfg w = Inr w')) \<and>
         (\<forall>w'. render rnd dpr cfg w = Inr w' \<longrightarrow>
            starsRef w' =
              (if starfield cfg
               then map (update_star (cv_width c / (if dpr = 0 then 1 else dpr))
                           (cv_height c / (if dpr = 0 then 1 else dpr))) (starsRef w)
               else starsRef w) \<and>
            constellationsRef w' =
              (if starfield cfg \<and> showConstellations cfg
               then map (\<lambda>c'. c'\<lparr>c_stars :=
                      map (move_point
                             (c_vx c' + wrap_shift (cv_width c / (if dpr = 0 then 1 else dpr)) c')
                             (c_vy c')) (c_stars c')\<rparr>) (constellationsRef w)
               else constellationsRef w) \<and>
            rocketsRef w' = filter (\<lambda>r. \<not> r_y r \<le> r_targetY r) (map advance (rocketsRef w)) \<and>
            particlesRef w' =
              filter (\<lambda>q. \<not> p_alpha q \<le> 0)
                (map (integrate cfg)
                   (particlesRef w @
                    emitted rnd cfg (rev (map advance (rocketsRef w))) (draws w)))) \<and>
         (\<forall>W H s.
            s_x (update_star W H s) =
              (if s_x s + s_vx s < 0 then W else if W < s_x s + s_vx s then 0 else s_x s + s_vx s) \<and>
            s_y (update_star W H s) =
              (if s_y s + s_vy s < 0 then H else if H < s_y s + s_vy s then 0 else s_y s + s_vy s) \<and>
            s_vx (update_star W H s) = s_vx s \<and> s_vy (update_star W H s) = s_vy s) \<and>
         (\<forall>dx dy p. pt_x (move_point dx dy p) = pt_x p + dx \<and> pt_y (move_point dx dy p) = pt_y p + dy)"
proof -
  have total: "(\<forall>con \<in> set (constellationsRef w). c_stars con \<noteq> []) \<longrightarrow>
            (\<exists>w'. render rnd dpr cfg w = Inr w')"
    using render_total [of w rnd dpr cfg] by blast
  have fl: "filter flying (map advance (rocketsRef w)) =
            filter (\<lambda>r. \<not> r_y r \<le> r_targetY r) (map advance (rocketsRef w))"
    by (rule filter_cong) (simp_all add: flying_def)
  have pools: "starsRef w' =
              (if starfield cfg
               then map (update_star (cv_width c / (if dpr = 0 then 1 else dpr))
                           (cv_height c / (if dpr = 0 then 1 else dpr))) (starsRef w)
               else starsRef w) \<and>
            constellationsRef w' =
              (if starfield cfg \<and> showConstellations cfg
               then map (\<lambda>c'. c'\<lparr>c_stars :=
                      map (move_point
                             (c_vx c' + wrap_shift (cv_width c / (if dpr = 0 then 1 else dpr)) c')
                             (c_vy c')) (c_stars c')\<rparr>) (constellationsRef w)
               else constellationsRef w) \<and>
            rocketsRef w' = filter (\<lambda>r. \<not> r_y r \<le> r_targetY r) (map advance (rocketsRef w)) \<and>
            particlesRef w' =
              filter (\<lambda>q. \<not> p_alpha q \<le> 0)
                (map (integrate cfg)
                   (particlesRef w @
                    emitted rnd cfg (rev (map advance (rocketsRef w))) (draws w)))"
    if r: "render rnd dpr cfg w = Inr w'" for w'
    using render_pools [OF assms r] render_rockets [OF r assms]
      render_particles_explicit [OF r assms]
    by (simp only: fl integrate_pool_filter simp_thms)
  from total pools update_star_sel move_point_sel show ?thesis by blast
qed


theorem render_advances_pools_witness:
  "canvasRef night_world = Some canvas_800_600 \<and> cv_ctx canvas_800_600 \<and>
   constellationsRef night_world = [wrapping_constellation] \<and>
   c_stars wrapping_constellation \<noteq> [] \<and>
   render quarter_draws 1 (INITIAL_CONFIG\<lparr>starfield := True, showConstellations := True\<rparr>)
     night_world =
   Inr (night_world
         \<lparr>starsRef := [drifting_star\<lparr>s_x := 9.8, s_y := 10.02\<rparr>],
          constellationsRef :=
            [wrapping_constellation
               \<lparr>c_stars := [\<lparr>pt_x = 999.995, pt_y = 30.001\<rparr>,
                            \<lparr>pt_x = 1014.985, pt_y = 20.001\<rparr>]\<rparr>]\<rparr>) \<and>
   render quarter_draws 1 (INITIAL_CONFIG\<lparr>starfield := True\<rparr>) night_world =
   Inr (night_world\<lparr>starsRef := [drifting_star\<lparr>s_x := 9.8, s_y := 10.02\<rparr>]\<rparr>)"
proof -
  have h: "canvasRef night_world = Some canvas_800_600" "cv_ctx canvas_800_600"
    by (simp_all add: night_world_def empty_world_def canvas_800_600_def)
  from render_advances_pools [OF h, of quarter_draws 1
      "INITIAL_CONFIG\<lparr>starfield := True, showConstellations := True\<rparr>"] h
  show ?thesis
    by (simp add: render_def night_world_def empty_world_def canvas_800_600_def INITIAL_CONFIG_def
        update_starfield_def update_star_def update_constellation_def move_point_def
        drifting_star_def wrapping_constellation_def update_particles_def Let_def)
qed

text \<open>
  C8 as stated fails: under the initial configuration of the application, which does not
  set \<^verbatim>\<open>starfield\<close>, a frame leaves a drifting star and a drifting constellation where they
  were; and with \<^verbatim>\<open>starfield\<close> set but not \<^verbatim>\<open>showConstellations\<close>, the star moves and the
  constellation does not.
\<close>

theorem stars_frozen_counterexample:
  "render quarter_draws 1 INITIAL_CONFIG night_world = Inr night_world \<and>
   starsRef night_world = [drifting_star] \<and>
   s_x drifting_star + s_vx drifting_star \<noteq> s_x drifting_star \<and>
   update_star 800 600 drifting_star \<noteq> drifting_star \<and>
   render quarter_draws 1 (INITIAL_CONFIG\<lparr>starfield := True\<rparr>) night_world =
     Inr (night_world\<lparr>starsRef := [update_star 800 600 drifting_star]\<rparr>) \<and>
   constellationsRef night_world = [wrapping_constellation] \<and>
   c_vx wrapping_constellation \<noteq> 0 \<and>
   update_constellation 800 wrapping_constellation \<noteq> Inr wrapping_constellation"
  by (simp add: render_def night_world_def empty_world_def canvas_800_600_def INITIAL_CONFIG_def
      update_starfield_def update_star_def update_constellation_def move_point_def
      drifting_star_def wrapping_constellation_def update_particles_def Let_def)

section \<open>Trail particles\<close>




end
